theory Spec2Isabelle
  imports Main "HOL-Library.Word" "HOL-Library.Signed_Division"
begin

unbundle bit_operations_syntax

section \<open>Status codes and the value tree\<close>

text \<open>
  The SDK's status codes (\<^verbatim>\<open>SAErrCode\<close> in \<^verbatim>\<open>sensors_analytics.h\<close>).
\<close>

datatype SAErrCode = SA_OK | SA_MALLOC_ERROR | SA_INVALID_PARAMETER_ERROR | SA_IO_ERROR

text \<open>
  \<^verbatim>\<open>struct SANode\<close> is a key, a tag and a union selected by the tag. The embedding
  keeps the key (\<open>None\<close> is the \<^verbatim>\<open>NULL\<close> key) and folds tag and union into one
  datatype, so that a node always carries the member its tag announces. The linked
  list \<^verbatim>\<open>SAListNode\<close> of a list or dict node is the list of its children, head first.

  C strings are \<open>string\<close>s without the terminating NUL; a \<^verbatim>\<open>const char*\<close> that may be
  \<^verbatim>\<open>NULL\<close> is a \<open>string option\<close>. \<^verbatim>\<open>long long\<close> and \<^verbatim>\<open>time_t\<close> are 64-bit words,
  \<^verbatim>\<open>int\<close> is a 32-bit word. A \<^verbatim>\<open>double\<close> is never inspected by the properties
  proved here and stays an abstract type.

  Reference counts and \<^verbatim>\<open>free\<close> are not part of the embedding: nodes are values, and a
  node adopted by two parents is the same value in both. \<^verbatim>\<open>SA_SAFE_MALLOC\<close> ends the
  process when memory runs out, so no constructor returns \<^verbatim>\<open>NULL\<close>.
\<close>

typedecl double

datatype SANodeTag = SA_BOOL | SA_NUMBER | SA_INT | SA_DATE | SA_STRING | SA_LIST | SA_DICT

datatype SANode = SANode (key: "string option") (body: SABody)
and SABody =
    V_bool int
  | V_number double
  | V_int "64 word"
  | V_date "64 word" "32 word"
  | V_string string
  | V_list "SANode list"
  | V_dict "SANode list"

fun tag_of :: "SABody \<Rightarrow> SANodeTag" where
  "tag_of (V_bool b) = SA_BOOL"
| "tag_of (V_number x) = SA_NUMBER"
| "tag_of (V_int i) = SA_INT"
| "tag_of (V_date s u) = SA_DATE"
| "tag_of (V_string s) = SA_STRING"
| "tag_of (V_list cs) = SA_LIST"
| "tag_of (V_dict cs) = SA_DICT"

definition tag :: "SANode \<Rightarrow> SANodeTag" where
  "tag node = tag_of (body node)"

text \<open>
  \<open>array node\<close> (the member \<^verbatim>\<open>array_\<close>) is the child list of a list or dict node. Every read of
  \<^verbatim>\<open>node->array_\<close> in the source is on such a node; for a scalar the embedding
  answers with the empty list.
\<close>

fun array_of :: "SABody \<Rightarrow> SANode list" where
  "array_of (V_list cs) = cs"
| "array_of (V_dict cs) = cs"
| "array_of (V_bool b) = []"
| "array_of (V_number x) = []"
| "array_of (V_int i) = []"
| "array_of (V_date s u) = []"
| "array_of (V_string s) = []"

definition array :: "SANode \<Rightarrow> SANode list" where
  "array node = array_of (body node)"

text \<open>The assignment \<^verbatim>\<open>parent->array_ = ...\<close> on a list or dict node.\<close>

fun set_array_of :: "SABody \<Rightarrow> SANode list \<Rightarrow> SABody" where
  "set_array_of (V_list old) cs = V_list cs"
| "set_array_of (V_dict old) cs = V_dict cs"
| "set_array_of (V_bool b) cs = V_bool b"
| "set_array_of (V_number x) cs = V_number x"
| "set_array_of (V_int i) cs = V_int i"
| "set_array_of (V_date s u) cs = V_date s u"
| "set_array_of (V_string s) cs = V_string s"

definition set_array :: "SANode \<Rightarrow> SANode list \<Rightarrow> SANode" where
  "set_array node cs = SANode (key node) (set_array_of (body node) cs)"

subsection \<open>Constructors\<close>

definition sa_init_bool_node :: "string option \<Rightarrow> int \<Rightarrow> SANode" where
  "sa_init_bool_node k bool0 = SANode k (V_bool bool0)"

definition sa_init_number_node :: "string option \<Rightarrow> double \<Rightarrow> SANode" where
  "sa_init_number_node k number0 = SANode k (V_number number0)"

definition sa_init_int_node :: "string option \<Rightarrow> 64 word \<Rightarrow> SANode" where
  "sa_init_int_node k int0 = SANode k (V_int int0)"

definition sa_init_date_node :: "string option \<Rightarrow> 64 word \<Rightarrow> 32 word \<Rightarrow> SANode" where
  "sa_init_date_node k seconds microseconds = SANode k (V_date seconds microseconds)"

text \<open>
  \<^verbatim>\<open>_sa_init_string_node\<close> copies \<open>length\<close> bytes of \<open>str\<close> and terminates them.
\<close>

definition sa_init_string_node :: "string option \<Rightarrow> string \<Rightarrow> nat \<Rightarrow> SANode" where
  "sa_init_string_node k str len = SANode k (V_string (take len str))"

definition sa_init_list_node :: "string option \<Rightarrow> SANode" where
  "sa_init_list_node k = SANode k (V_list [])"

definition sa_init_dict_node :: "string option \<Rightarrow> SANode" where
  "sa_init_dict_node k = SANode k (V_dict [])"

subsection \<open>Children: lookup, removal, adoption\<close>

text \<open>
  \<^verbatim>\<open>0 == strncmp(a, b, n)\<close> on NUL-terminated strings: the first \<open>n\<close> bytes agree, a
  shorter string ending where the other one ends.
\<close>

definition strncmp_eq :: "string \<Rightarrow> string \<Rightarrow> nat \<Rightarrow> bool" where
  "strncmp_eq a b n = (take n a = take n b)"

text \<open>
  The test both loops make on a child:
  \<^verbatim>\<open>NULL != curr->value->key && 0 == strncmp(curr->value->key, key, 256)\<close>.
\<close>

definition key_matches :: "string \<Rightarrow> SANode \<Rightarrow> bool" where
  "key_matches k c = (case key c of None \<Rightarrow> False | Some ck \<Rightarrow> strncmp_eq ck k 256)"

fun get_child_loop :: "string \<Rightarrow> SANode list \<Rightarrow> SANode option" where
  "get_child_loop k [] = None"
| "get_child_loop k (c # cs) = (if key_matches k c then Some c else get_child_loop k cs)"

definition sa_get_child :: "string option \<Rightarrow> SANode \<Rightarrow> SANode option" where
  "sa_get_child k parent =
     (case k of
        None \<Rightarrow> None
      | Some k' \<Rightarrow> if tag parent \<noteq> SA_DICT then None else get_child_loop k' (array parent))"

text \<open>
  \<^verbatim>\<open>_sa_remove_child\<close>: a \<^verbatim>\<open>NULL\<close> key removes every child, a key removes the children
  it matches; the others keep their order.
\<close>

fun remove_child_loop :: "string option \<Rightarrow> SANode list \<Rightarrow> SANode list" where
  "remove_child_loop k [] = []"
| "remove_child_loop k (c # cs) =
     (if (case k of None \<Rightarrow> True | Some k' \<Rightarrow> key_matches k' c)
      then remove_child_loop k cs
      else c # remove_child_loop k cs)"

definition sa_remove_child :: "string option \<Rightarrow> SANode \<Rightarrow> SANode" where
  "sa_remove_child k parent =
     (if tag parent \<noteq> SA_DICT \<and> tag parent \<noteq> SA_LIST then parent
      else set_array parent (remove_child_loop k (array parent)))"

text \<open>
  \<^verbatim>\<open>_sa_add_child\<close> changes the parent in place and returns the new list cell, or
  \<^verbatim>\<open>NULL\<close> when it refuses. Here it returns the changed parent, \<open>None\<close> for \<^verbatim>\<open>NULL\<close>
  (the parent is then untouched).
\<close>

definition sa_add_child :: "SANode \<Rightarrow> SANode \<Rightarrow> SANode option" where
  "sa_add_child child parent =
     (if tag parent \<noteq> SA_DICT \<and> tag parent \<noteq> SA_LIST then None
      else if tag parent = SA_DICT \<and> key child = None then None
      else
        let parent' = (if tag parent = SA_DICT then sa_remove_child (key child) parent
                       else parent)
        in Some (set_array parent' (child # array parent')))"

text \<open>
  Every caller writes the statement \<^verbatim>\<open>_sa_add_child(child, parent);\<close> and drops the
  returned pointer: the parent afterwards, changed or not.
\<close>

definition add_child_stmt :: "SANode \<Rightarrow> SANode \<Rightarrow> SANode" where
  "add_child_stmt child parent =
     (case sa_add_child child parent of None \<Rightarrow> parent | Some parent' \<Rightarrow> parent')"

text \<open>Inserting a sequence of children, first to last.\<close>

fun add_children :: "SANode list \<Rightarrow> SANode \<Rightarrow> SANode" where
  "add_children [] parent = parent"
| "add_children (c # cs) parent = add_children cs (add_child_stmt c parent)"

text \<open>
  \<open>displaces x y\<close>: inserting \<open>x\<close> into a dict removes the child \<open>y\<close>. Of a sequence
  of insertions, \<open>last_per_key\<close> keeps the ones no later insertion displaces.
\<close>

definition displaces :: "SANode \<Rightarrow> SANode \<Rightarrow> bool" where
  "displaces x y = (case key x of None \<Rightarrow> False | Some k \<Rightarrow> key_matches k y)"

fun last_per_key :: "SANode list \<Rightarrow> SANode list" where
  "last_per_key [] = []"
| "last_per_key (c # cs) =
     (if list_ex (\<lambda>x. displaces x c) cs then last_per_key cs else c # last_per_key cs)"

subsection \<open>The property builders\<close>

text \<open>
  \<^verbatim>\<open>sa_add_bool\<close> and its siblings take the properties object by pointer; \<open>None\<close> is
  \<^verbatim>\<open>NULL\<close>. They return the status and the object afterwards.
\<close>

definition sa_init_properties :: "SANode" where
  "sa_init_properties = sa_init_dict_node (Some ''properties'')"

definition sa_add_bool :: "string option \<Rightarrow> int \<Rightarrow> SANode option \<Rightarrow> SAErrCode \<times> SANode option" where
  "sa_add_bool k bool0 properties =
     (case properties of
        None \<Rightarrow> (SA_INVALID_PARAMETER_ERROR, None)
      | Some p \<Rightarrow> (SA_OK, Some (add_child_stmt (sa_init_bool_node k bool0) p)))"

definition sa_add_number :: "string option \<Rightarrow> double \<Rightarrow> SANode option \<Rightarrow> SAErrCode \<times> SANode option" where
  "sa_add_number k number0 properties =
     (case properties of
        None \<Rightarrow> (SA_INVALID_PARAMETER_ERROR, None)
      | Some p \<Rightarrow> (SA_OK, Some (add_child_stmt (sa_init_number_node k number0) p)))"

definition sa_add_int :: "string option \<Rightarrow> 64 word \<Rightarrow> SANode option \<Rightarrow> SAErrCode \<times> SANode option" where
  "sa_add_int k int0 properties =
     (case properties of
        None \<Rightarrow> (SA_INVALID_PARAMETER_ERROR, None)
      | Some p \<Rightarrow> (SA_OK, Some (add_child_stmt (sa_init_int_node k int0) p)))"

definition sa_add_date :: "string option \<Rightarrow> 64 word \<Rightarrow> 32 word \<Rightarrow> SANode option \<Rightarrow> SAErrCode \<times> SANode option" where
  "sa_add_date k seconds microseconds properties =
     (case properties of
        None \<Rightarrow> (SA_INVALID_PARAMETER_ERROR, None)
      | Some p \<Rightarrow> (SA_OK, Some (add_child_stmt (sa_init_date_node k seconds microseconds) p)))"

definition sa_add_string :: "string option \<Rightarrow> string \<Rightarrow> nat \<Rightarrow> SANode option \<Rightarrow> SAErrCode \<times> SANode option" where
  "sa_add_string k string0 len properties =
     (case properties of
        None \<Rightarrow> (SA_INVALID_PARAMETER_ERROR, None)
      | Some p \<Rightarrow> (SA_OK, Some (add_child_stmt (sa_init_string_node k string0 len) p)))"

section \<open>Name validation\<close>

text \<open>
  The embedding is of the build with \<^verbatim>\<open>USE_POSIX\<close>: names are checked with POSIX
  \<^verbatim>\<open>regexec\<close> against two patterns that \<^verbatim>\<open>sa_init\<close> compiles once with
  \<^verbatim>\<open>REG_EXTENDED | REG_ICASE | REG_NOSUB\<close>, and the clock is \<^verbatim>\<open>gettimeofday\<close>.

  \<^verbatim>\<open>regexec\<close> belongs to the C library. Its extended regular expressions are given
  here as syntax trees with a backtracking matcher. A position is the rest of the
  subject string together with the flag "at the start of the subject"; matching a tree
  at a position returns every position where a match can end. \<open>Bol\<close> and \<open>Eol\<close> are the
  anchors \<^verbatim>\<open>^\<close> and \<^verbatim>\<open>$\<close> (without \<^verbatim>\<open>REG_NEWLINE\<close> they match only at the two ends of
  the subject), \<open>Bracket\<close> is a bracket expression given by its ranges, \<open>Rep r m n\<close> is
  the interval \<^verbatim>\<open>r{m,n}\<close>.
\<close>

datatype regex =
    Bol
  | Eol
  | Chr char
  | Bracket "(char \<times> char) list"
  | Seq "regex list"
  | Alt "regex list"
  | Rep regex nat nat

type_synonym rpos = "bool \<times> string"

text \<open>
  \<^verbatim>\<open>REG_ICASE\<close> in the C locale: an ASCII letter also matches its other case.
\<close>

definition other_case :: "char \<Rightarrow> char" where
  "other_case c =
     (let n = (of_char c :: nat) in
      if 65 \<le> n \<and> n \<le> 90 then char_of (n + 32)
      else if 97 \<le> n \<and> n \<le> 122 then char_of (n - 32)
      else c)"

definition in_range :: "char \<times> char \<Rightarrow> char \<Rightarrow> bool" where
  "in_range r c = ((of_char (fst r) :: nat) \<le> of_char c \<and> (of_char c :: nat) \<le> of_char (snd r))"

definition chr_icase :: "char \<Rightarrow> char \<Rightarrow> bool" where
  "chr_icase c x = (x = c \<or> x = other_case c)"

definition bracket_icase :: "(char \<times> char) list \<Rightarrow> char \<Rightarrow> bool" where
  "bracket_icase rs x = list_ex (\<lambda>r. in_range r x \<or> in_range r (other_case x)) rs"

definition step_char :: "(char \<Rightarrow> bool) \<Rightarrow> rpos \<Rightarrow> rpos list" where
  "step_char P p = (case snd p of [] \<Rightarrow> [] | x # xs \<Rightarrow> if P x then [(False, xs)] else [])"

fun seq_all :: "(rpos \<Rightarrow> rpos list) list \<Rightarrow> rpos \<Rightarrow> rpos list" where
  "seq_all [] p = [p]"
| "seq_all (m # ms) p = concat (map (seq_all ms) (m p))"

definition alt_any :: "(rpos \<Rightarrow> rpos list) list \<Rightarrow> rpos \<Rightarrow> rpos list" where
  "alt_any ms p = concat (map (\<lambda>m. m p) ms)"

fun rep :: "(rpos \<Rightarrow> rpos list) \<Rightarrow> nat \<Rightarrow> nat \<Rightarrow> rpos \<Rightarrow> rpos list" where
  "rep m lo 0 p = (if lo = 0 then [p] else [])"
| "rep m lo (Suc hi) p = (if lo = 0 then [p] else []) @ concat (map (rep m (lo - 1) hi) (m p))"

primrec rmatch :: "regex \<Rightarrow> rpos \<Rightarrow> rpos list" where
  "rmatch Bol = (\<lambda>p. if fst p then [p] else [])"
| "rmatch Eol = (\<lambda>p. if snd p = [] then [p] else [])"
| "rmatch (Chr c) = step_char (chr_icase c)"
| "rmatch (Bracket rs) = step_char (bracket_icase rs)"
| "rmatch (Seq rs) = seq_all (map rmatch rs)"
| "rmatch (Alt rs) = alt_any (map rmatch rs)"
| "rmatch (Rep r lo hi) = rep (rmatch r) lo hi"

text \<open>
  \<^verbatim>\<open>0 == regexec(&re, s, 0, NULL, 0)\<close>: a match starts at some offset of the subject.
\<close>

definition regexec :: "regex \<Rightarrow> string \<Rightarrow> bool" where
  "regexec r s = list_ex (\<lambda>i. rmatch r (i = 0, drop i s) \<noteq> []) [0..<Suc (length s)]"

text \<open>
  \<^verbatim>\<open>KEY_WORD_PATTERN\<close> is
  \<^verbatim>\<open>(^distinct_id$|^original_id$|^time$|^properties$|^id$|^first_id$|^second_id$|^users$|^events$|^event$|^user_id$|^date$|^datetime$)\<close>
  and \<^verbatim>\<open>NAME_PATTERN\<close> is \<^verbatim>\<open>^[a-zA-Z_$][a-zA-Z0-9_$]{0,99}$\<close>.
\<close>

definition anchored_word :: "string \<Rightarrow> regex" where
  "anchored_word w = Seq (Bol # map Chr w @ [Eol])"

definition KEY_WORD_PATTERN :: regex where
  "KEY_WORD_PATTERN = Alt (map anchored_word
     [''distinct_id'', ''original_id'', ''time'', ''properties'', ''id'', ''first_id'',
      ''second_id'', ''users'', ''events'', ''event'', ''user_id'', ''date'', ''datetime''])"

definition NAME_PATTERN :: regex where
  "NAME_PATTERN = Seq
     [Bol,
      Bracket [(CHR ''a'', CHR ''z''), (CHR ''A'', CHR ''Z''), (CHR ''_'', CHR ''_''),
               (CHR ''$'', CHR ''$'')],
      Rep (Bracket [(CHR ''a'', CHR ''z''), (CHR ''A'', CHR ''Z''), (CHR ''0'', CHR ''9''),
                    (CHR ''_'', CHR ''_''), (CHR ''$'', CHR ''$'')]) 0 99,
      Eol]"

text \<open>
  \<^verbatim>\<open>_sa_assert_key_name\<close>. A \<^verbatim>\<open>NULL\<close> key has the length \<^verbatim>\<open>(unsigned long)-1\<close>, above
  255. The argument \<^verbatim>\<open>sa->regex\<close> always holds the two compiled patterns.
\<close>

definition sa_assert_key_name :: "string option \<Rightarrow> SAErrCode" where
  "sa_assert_key_name k =
     (case k of
        None \<Rightarrow> SA_INVALID_PARAMETER_ERROR
      | Some s \<Rightarrow>
          if length s < 1 \<or> length s > 255 then SA_INVALID_PARAMETER_ERROR
          else if regexec KEY_WORD_PATTERN s then SA_INVALID_PARAMETER_ERROR
          else if \<not> regexec NAME_PATTERN s then SA_INVALID_PARAMETER_ERROR
          else SA_OK)"


text \<open>
  The validator as the specification words it, for comparison with the code: the
  length is between 1 and 255 bytes; the name is not, letter case aside, one of the
  reserved words; its first byte is a letter, \<open>_\<close> or \<open>$\<close>, and at most 99 bytes follow,
  each a letter, a digit, \<open>_\<close> or \<open>$\<close>.
\<close>

definition reserved_words :: "string list" where
  "reserved_words =
     [''distinct_id'', ''original_id'', ''time'', ''properties'', ''id'', ''first_id'',
      ''second_id'', ''users'', ''events'', ''event'', ''user_id'', ''date'', ''datetime'']"

definition to_lower :: "char \<Rightarrow> char" where
  "to_lower c =
     (let n = (of_char c :: nat) in if 65 \<le> n \<and> n \<le> 90 then char_of (n + 32) else c)"

definition lower_letters :: string where
  "lower_letters = ''abcdefghijklmnopqrstuvwxyz''"

definition upper_letters :: string where
  "upper_letters = ''ABCDEFGHIJKLMNOPQRSTUVWXYZ''"

definition digits :: string where
  "digits = ''0123456789''"

definition name_first :: string where
  "name_first = upper_letters @ lower_letters @ ''_$''"

definition name_rest :: string where
  "name_rest = upper_letters @ lower_letters @ digits @ ''_$''"

definition NameValidator :: "string \<Rightarrow> bool" where
  "NameValidator n =
     (1 \<le> length n \<and> length n \<le> 255
      \<and> \<not> list_ex (\<lambda>w. map to_lower n = map to_lower w) reserved_words
      \<and> (case n of
            [] \<Rightarrow> False
          | c # cs \<Rightarrow> c \<in> set name_first \<and> length cs \<le> 99 \<and> list_all (\<lambda>x. x \<in> set name_rest) cs))"


section \<open>The environment\<close>

text \<open>
  What the code reads from the C library and the operating system is a parameter of
  the embedding: the clock (\<^verbatim>\<open>gettimeofday\<close> fills \<open>tv_sec\<close> and \<open>tv_usec\<close>, \<^verbatim>\<open>time(NULL)\<close>
  returns \<open>time_now\<close>), the time zone (\<open>localtime t\<close> is the \<^verbatim>\<open>struct tm\<close> after
  \<^verbatim>\<open>LOCALTIME(&t, &tm)\<close>) and the rendering of a \<^verbatim>\<open>double\<close> by \<^verbatim>\<open>"%.3f"\<close>.
\<close>

record tm =
  tm_sec :: "32 word"
  tm_min :: "32 word"
  tm_hour :: "32 word"
  tm_mday :: "32 word"
  tm_mon :: "32 word"
  tm_year :: "32 word"

record SAEnv =
  tv_sec :: "64 word"
  tv_usec :: "64 word"
  time_now :: "64 word"
  localtime :: "64 word \<Rightarrow> tm"
  fmt_f3 :: "double \<Rightarrow> string"

text \<open>
  C's \<^verbatim>\<open>/\<close> on signed integers truncates towards zero.
\<close>

definition c_sdiv :: "'a::len word \<Rightarrow> 'a word \<Rightarrow> 'a word" where
  "c_sdiv a b = word_of_int (sint a sdiv sint b)"

text \<open>
  \<^verbatim>\<open>printf\<close> with the conversion \<^verbatim>\<open>%0<w>d\<close>: the decimal digits, zero-padded on the left
  to \<open>w\<close> characters, the sign counting as one of them. \<^verbatim>\<open>%d\<close>, \<^verbatim>\<open>%ld\<close> and \<^verbatim>\<open>%lld\<close> are
  the width 0.
\<close>

definition digit_char :: "nat \<Rightarrow> char" where
  "digit_char d = char_of (48 + d)"

fun dec :: "nat \<Rightarrow> string" where
  "dec n = (if n < 10 then [digit_char n] else dec (n div 10) @ [digit_char (n mod 10)])"

definition zero_pad :: "nat \<Rightarrow> string \<Rightarrow> string" where
  "zero_pad w ds = replicate (w - length ds) CHR ''0'' @ ds"

definition printf_0d :: "nat \<Rightarrow> int \<Rightarrow> string" where
  "printf_0d w n =
     (if n < 0 then CHR ''-'' # zero_pad (w - 1) (dec (nat (- n))) else zero_pad w (dec (nat n)))"


text \<open>\<^verbatim>\<open>snprintf(buf, n, ...)\<close> keeps at most \<open>n - 1\<close> bytes.\<close>

definition snprintf :: "nat \<Rightarrow> string \<Rightarrow> string" where
  "snprintf n formatted = take (n - 1) formatted"

section \<open>The JSON encoder\<close>

text \<open>
  \<^verbatim>\<open>SAStringBuffer\<close> grows by reallocation and cannot fail short of ending the process;
  it is the string written so far, and \<^verbatim>\<open>_sa_sb_put\<close> and \<^verbatim>\<open>_sa_sb_putc\<close> append to it.

  \<open>byte_at s i\<close> is \<^verbatim>\<open>(unsigned char)s[i]\<close> for a NUL-terminated string: the
  terminator is read at \<open>i = length s\<close>. The validator never reads past it.
\<close>

definition byte_at :: "string \<Rightarrow> nat \<Rightarrow> nat" where
  "byte_at s i = (if i < length s then of_char (s ! i) else 0)"

definition sa_utf8_validate_cz :: "string \<Rightarrow> nat" where
  "sa_utf8_validate_cz s =
     (let c = byte_at s 0 in
      if c \<le> 0x7F then 1
      else if c \<le> 0xC1 then 0
      else if c \<le> 0xDF then
        (if (byte_at s 1 AND 0xC0) \<noteq> 0x80 then 0 else 2)
      else if c \<le> 0xEF then
        (if c = 0xE0 \<and> byte_at s 1 < 0xA0 then 0
         else if c = 0xED \<and> byte_at s 1 > 0x9F then 0
         else if (byte_at s 1 AND 0xC0) \<noteq> 0x80 then 0
         else if (byte_at s 2 AND 0xC0) \<noteq> 0x80 then 0
         else 3)
      else if c \<le> 0xF4 then
        (if c = 0xF0 \<and> byte_at s 1 < 0x90 then 0
         else if c = 0xF4 \<and> byte_at s 1 > 0x8F then 0
         else if (byte_at s 1 AND 0xC0) \<noteq> 0x80 then 0
         else if (byte_at s 2 AND 0xC0) \<noteq> 0x80 then 0
         else if (byte_at s 3 AND 0xC0) \<noteq> 0x80 then 0
         else 4)
      else 0)"

function sa_utf8_validate :: "string \<Rightarrow> bool" where
  "sa_utf8_validate s =
     (if s = [] then True
      else let len = sa_utf8_validate_cz s in
           if len = 0 then False else sa_utf8_validate (drop len s))"
  by pat_completeness auto
termination
  by (relation "measure length") auto

text \<open>
  The loop of \<^verbatim>\<open>_sa_dump_string\<close> over the bytes still to encode, returning what it
  writes. \<^verbatim>\<open>escape_unicode\<close> is the constant \<^verbatim>\<open>SA_FALSE\<close>.

  A control byte below \<^verbatim>\<open>0x1F\<close> without a short escape goes to \<^verbatim>\<open>utf8_read_char\<close>,
  which reads the string through a \<^verbatim>\<open>const unsigned int*\<close>: four bytes at a time, past the
  end of the buffer for a short string. What it returns depends on the memory around
  the string; the embedding gives no result there (\<open>None\<close>).
\<close>

definition escape_unicode :: bool where
  "escape_unicode = False"

definition replacement_character :: string where
  "replacement_character = [char_of (0xEF :: nat), char_of (0xBF :: nat), char_of (0xBD :: nat)]"

function dump_string_loop :: "string \<Rightarrow> string option" where
  "dump_string_loop s =
     (case s of
        [] \<Rightarrow> Some []
      | c # rest \<Rightarrow>
          if c = CHR 0x22 then map_option ((@) [CHR 0x5C, CHR 0x22]) (dump_string_loop rest)
          else if c = CHR 0x5C then map_option ((@) [CHR 0x5C, CHR 0x5C]) (dump_string_loop rest)
          else if c = CHR 0x08 then map_option ((@) [CHR 0x5C, CHR ''b'']) (dump_string_loop rest)
          else if c = CHR 0x0C then map_option ((@) [CHR 0x5C, CHR ''f'']) (dump_string_loop rest)
          else if c = CHR 0x0A then map_option ((@) [CHR 0x5C, CHR ''n'']) (dump_string_loop rest)
          else if c = CHR 0x0D then map_option ((@) [CHR 0x5C, CHR ''r'']) (dump_string_loop rest)
          else if c = CHR 0x09 then map_option ((@) [CHR 0x5C, CHR ''t'']) (dump_string_loop rest)
          else
            let len = sa_utf8_validate_cz s in
            if len = 0 then
              (if escape_unicode
               then map_option ((@) [CHR 0x5C, CHR ''u'', CHR ''F'', CHR ''F'', CHR ''F'', CHR ''D''])
                      (dump_string_loop rest)
               else map_option ((@) replacement_character) (dump_string_loop rest))
            else if (of_char c :: nat) < 0x1F \<or> ((of_char c :: nat) \<ge> 0x80 \<and> escape_unicode)
            then None
            else map_option ((@) (take len s)) (dump_string_loop (drop len s)))"
  by pat_completeness auto
termination
  by (relation "measure length") auto

text \<open>
  \<^verbatim>\<open>_sa_dump_string\<close> is only called on a string node. It validates the whole payload
  first and returns the invalid-parameter status, with nothing written, when the
  validation fails.
\<close>

definition sa_dump_string :: "SANode \<Rightarrow> string \<Rightarrow> (SAErrCode \<times> string) option" where
  "sa_dump_string node sb =
     (case body node of
        V_string s \<Rightarrow>
          if \<not> sa_utf8_validate s then Some (SA_INVALID_PARAMETER_ERROR, sb)
          else (case dump_string_loop s of
                  None \<Rightarrow> None
                | Some out \<Rightarrow> Some (SA_OK, sb @ [CHR 0x22] @ out @ [CHR 0x22]))
      | _ \<Rightarrow> None)"

text \<open>
  \<^verbatim>\<open>_sa_dump_node\<close>, \<^verbatim>\<open>_sa_dump_dict\<close> and \<^verbatim>\<open>_sa_dump_list\<close> with their loops over the
  children. Each returns the status and the buffer afterwards, \<open>None\<close> where a callee
  has no result or a dict child has no key for \<^verbatim>\<open>strlen\<close>. \<^verbatim>\<open>_sa_dump_node\<close> calls
  \<^verbatim>\<open>_sa_dump_string\<close>, \<^verbatim>\<open>_sa_dump_list\<close> and \<^verbatim>\<open>_sa_dump_dict\<close> as statements, dropping the
  status they return, and the two loops do the same with \<^verbatim>\<open>_sa_dump_node\<close>.
\<close>

fun sa_dump_node :: "SAEnv \<Rightarrow> SANode option \<Rightarrow> string \<Rightarrow> (SAErrCode \<times> string) option"
  and dump_dict_loop :: "SAEnv \<Rightarrow> SANode list \<Rightarrow> string \<Rightarrow> string option"
  and dump_list_loop :: "SAEnv \<Rightarrow> SANode list \<Rightarrow> string \<Rightarrow> string option"
where
  "sa_dump_node env None sb = Some (SA_INVALID_PARAMETER_ERROR, sb)"
| "sa_dump_node env (Some (SANode k (V_bool b))) sb =
     Some (SA_OK, sb @ (if b \<noteq> 0 then ''true'' else ''false''))"
| "sa_dump_node env (Some (SANode k (V_number x))) sb =
     Some (SA_OK, sb @ snprintf 64 (fmt_f3 env x))"
| "sa_dump_node env (Some (SANode k (V_int i))) sb =
     Some (SA_OK, sb @ snprintf 64 (printf_0d 0 (sint i)))"
| "sa_dump_node env (Some (SANode k (V_date seconds microseconds))) sb =
     (let t = localtime env seconds in
      Some (SA_OK, sb @ snprintf 64
        ([CHR 0x22] @ printf_0d 4 (sint (tm_year t + 1900)) @ ''-''
         @ printf_0d 2 (sint (tm_mon t + 1)) @ ''-''
         @ printf_0d 2 (sint (tm_mday t)) @ '' ''
         @ printf_0d 2 (sint (tm_hour t)) @ '':''
         @ printf_0d 2 (sint (tm_min t)) @ '':''
         @ printf_0d 2 (sint (tm_sec t)) @ ''.''
         @ printf_0d 3 (sint microseconds) @ [CHR 0x22])))"
| "sa_dump_node env (Some (SANode k (V_string s))) sb =
     (case sa_dump_string (SANode k (V_string s)) sb of
        None \<Rightarrow> None
      | Some (res, sb') \<Rightarrow> Some (SA_OK, sb'))"
| "sa_dump_node env (Some (SANode k (V_list cs))) sb =
     (case dump_list_loop env cs (sb @ ''['') of
        None \<Rightarrow> None
      | Some sb' \<Rightarrow> Some (SA_OK, sb' @ '']''))"
| "sa_dump_node env (Some (SANode k (V_dict cs))) sb =
     (case dump_dict_loop env cs (sb @ ''{'') of
        None \<Rightarrow> None
      | Some sb' \<Rightarrow> Some (SA_OK, sb' @ ''}''))"
| "dump_dict_loop env [] sb = Some sb"
| "dump_dict_loop env (child # next) sb =
     (case key child of
        None \<Rightarrow> None
      | Some k \<Rightarrow>
          (case sa_dump_node env (Some child) (sb @ [CHR 0x22] @ k @ [CHR 0x22] @ '':'') of
             None \<Rightarrow> None
           | Some (res, sb') \<Rightarrow> dump_dict_loop env next (if next \<noteq> [] then sb' @ '','' else sb')))"
| "dump_list_loop env [] sb = Some sb"
| "dump_list_loop env (child # next) sb =
     (case sa_dump_node env (Some child) sb of
        None \<Rightarrow> None
      | Some (res, sb') \<Rightarrow> dump_list_loop env next (if next \<noteq> [] then sb' @ '','' else sb'))"

section \<open>The logging consumer\<close>

text \<open>
  The files the consumer writes: \<open>files\<close> gives each path its content; \<open>open_fails\<close>
  says for which paths \<^verbatim>\<open>fopen\<close> returns \<^verbatim>\<open>NULL\<close>, \<open>write_fails\<close> and \<open>flush_fails\<close> whether
  \<^verbatim>\<open>fwrite\<close> and \<^verbatim>\<open>fflush\<close> fail. A \<^verbatim>\<open>FILE*\<close> opened for appending is the path it was
  opened on, and \<open>opened\<close> lists the streams that are open, one entry for each \<^verbatim>\<open>fopen\<close>
  not yet followed by its \<^verbatim>\<open>fclose\<close>; buffering is not modelled, a successful \<^verbatim>\<open>fwrite\<close>
  is in the file at once.
\<close>

record filesystem =
  files :: "string \<Rightarrow> string option"
  open_fails :: "string \<Rightarrow> bool"
  write_fails :: bool
  flush_fails :: bool
  opened :: "string list"




text \<open>
  \<^verbatim>\<open>SALoggingConsumerInter\<close>; the member \<^verbatim>\<open>file\<close> is \<open>file_ptr\<close> here, \<open>None\<close> for \<^verbatim>\<open>NULL\<close>.
\<close>

record SALoggingConsumerInter =
  file_name :: string
  file_name_prefix :: string
  date :: "32 word"
  file_ptr :: "string option"


definition sa_logging_consumer_flush :: "SALoggingConsumerInter \<Rightarrow> filesystem \<Rightarrow> SAErrCode" where
  "sa_logging_consumer_flush self fs =
     (if file_ptr self \<noteq> None \<and> \<not> flush_fails fs then SA_OK else SA_IO_ERROR)"










section \<open>The session, the super properties and the envelope\<close>

text \<open>
  \<^verbatim>\<open>struct SAConsumer\<close>: the private data \<^verbatim>\<open>this_\<close> (here \<open>this_data\<close>) and the operation
  \<^verbatim>\<open>op.send\<close>, which returns a status and changes the private data; \<open>None\<close> when the
  operation has no defined result. \<^verbatim>\<open>struct SensorsAnalytics\<close> holds the super properties
  and the consumer; its two compiled patterns are constants of the embedding, its mutex
  has no counterpart in a sequential model.
\<close>

record 'c SAConsumer =
  op_send :: "'c \<Rightarrow> string option \<Rightarrow> nat \<Rightarrow> (SAErrCode \<times> 'c) option"
  this_data :: 'c

record 'c SensorsAnalytics =
  super_properties :: SANode
  consumer :: "'c SAConsumer"

definition sa_init :: "'c SAConsumer \<Rightarrow> SAErrCode \<times> 'c SensorsAnalytics" where
  "sa_init cons = (SA_OK, \<lparr>super_properties = sa_init_properties, consumer = cons\<rparr>)"

definition sa_register_super_properties ::
  "SANode option \<Rightarrow> 'c SensorsAnalytics \<Rightarrow> SAErrCode \<times> 'c SensorsAnalytics" where
  "sa_register_super_properties properties sa =
     (case properties of
        None \<Rightarrow> (SA_INVALID_PARAMETER_ERROR, sa)
      | Some p \<Rightarrow>
          if tag p \<noteq> SA_DICT then (SA_INVALID_PARAMETER_ERROR, sa)
          else (SA_OK, sa\<lparr>super_properties := add_children (array p) (super_properties sa)\<rparr>))"

definition sa_unregister_super_properties ::
  "string option \<Rightarrow> 'c SensorsAnalytics \<Rightarrow> SAErrCode \<times> 'c SensorsAnalytics" where
  "sa_unregister_super_properties k sa =
     (SA_OK, sa\<lparr>super_properties := sa_remove_child k (super_properties sa)\<rparr>)"

definition sa_clear_super_properties :: "'c SensorsAnalytics \<Rightarrow> SAErrCode \<times> 'c SensorsAnalytics" where
  "sa_clear_super_properties sa =
     (SA_OK, sa\<lparr>super_properties := sa_remove_child None (super_properties sa)\<rparr>)"

subsection \<open>Validation\<close>

definition SA_LIB_VERSION :: string where
  "SA_LIB_VERSION = ''0.2.0''"

definition SA_LIB :: string where
  "SA_LIB = ''C''"

definition SA_LIB_METHOD :: string where
  "SA_LIB_METHOD = ''code''"

text \<open>
  \<^verbatim>\<open>0 == strncmp(type, "track", strlen("track"))\<close>: the type starts with \<^verbatim>\<open>track\<close>, so
  \<^verbatim>\<open>_sa_is_track\<close> also holds of \<^verbatim>\<open>track_signup\<close>.
\<close>

definition sa_is_track :: "string \<Rightarrow> bool" where
  "sa_is_track event_type = strncmp_eq event_type ''track'' (length ''track'')"

definition sa_is_track_signup :: "string \<Rightarrow> bool" where
  "sa_is_track_signup event_type = strncmp_eq event_type ''track_signup'' (length ''track_signup'')"

text \<open>
  The length test on an identifier: \<^verbatim>\<open>NULL\<close> counts as the length
  \<^verbatim>\<open>(unsigned long)-1\<close>.
\<close>

definition bad_id_length :: "string option \<Rightarrow> bool" where
  "bad_id_length id_opt =
     (case id_opt of None \<Rightarrow> True | Some s \<Rightarrow> length s < 1 \<or> length s > 255)"

fun check_keys_loop :: "SANode list \<Rightarrow> SAErrCode" where
  "check_keys_loop [] = SA_OK"
| "check_keys_loop (cur # next) =
     (if key cur = None \<or> sa_assert_key_name (key cur) \<noteq> SA_OK
      then SA_INVALID_PARAMETER_ERROR
      else check_keys_loop next)"

definition sa_check_legality ::
  "string option \<Rightarrow> string option \<Rightarrow> string \<Rightarrow> string option \<Rightarrow> SANode option \<Rightarrow> SAErrCode" where
  "sa_check_legality distinct_id origin_id event_type event properties =
     (if bad_id_length distinct_id then SA_INVALID_PARAMETER_ERROR
      else if sa_is_track_signup event_type \<and> bad_id_length origin_id
        then SA_INVALID_PARAMETER_ERROR
      else if sa_is_track event_type \<and> (event = None \<or> sa_assert_key_name event \<noteq> SA_OK)
        then SA_INVALID_PARAMETER_ERROR
      else (case properties of
              None \<Rightarrow> SA_OK
            | Some p \<Rightarrow> check_keys_loop (array p)))"

subsection \<open>Building the envelope\<close>

text \<open>
  The part of \<^verbatim>\<open>_sa_track_internal\<close> between the validation and the encoding builds the
  envelope \<^verbatim>\<open>msg\<close>. It either goes on with a value, or returns a status early, or has no
  defined behaviour: \<^verbatim>\<open>strlen\<close> of a \<^verbatim>\<open>NULL\<close> string, or a \<^verbatim>\<open>$time\<close> or \<^verbatim>\<open>$project\<close>
  child read through a union member that its tag does not select.
\<close>

datatype 'a outcome = Undefined | Return SAErrCode | Continue 'a

definition obind :: "'a outcome \<Rightarrow> ('a \<Rightarrow> 'b outcome) \<Rightarrow> 'b outcome" where
  "obind r f = (case r of Undefined \<Rightarrow> Undefined | Return res \<Rightarrow> Return res | Continue x \<Rightarrow> f x)"

text \<open>
  \<^verbatim>\<open>if (SA_OK != (res = sa_add_...(..., msg))) return res;\<close> and the same call as a
  statement whose status is dropped.
\<close>

definition status_checked :: "SAErrCode \<times> SANode option \<Rightarrow> SANode outcome" where
  "status_checked r =
     (if fst r \<noteq> SA_OK then Return (fst r)
      else (case snd r of None \<Rightarrow> Undefined | Some m \<Rightarrow> Continue m))"

definition drop_status :: "SAErrCode \<times> SANode option \<Rightarrow> SANode \<Rightarrow> SANode" where
  "drop_status r old = (case snd r of None \<Rightarrow> old | Some m \<Rightarrow> m)"

definition add_original_id :: "string \<Rightarrow> string option \<Rightarrow> SANode \<Rightarrow> SANode outcome" where
  "add_original_id event_type origin_id msg =
     (if sa_is_track_signup event_type then
        (case origin_id of
           None \<Rightarrow> Undefined
         | Some oid \<Rightarrow> status_checked (sa_add_string (Some ''original_id'') oid (length oid) (Some msg)))
      else Continue msg)"

definition add_event :: "string \<Rightarrow> string option \<Rightarrow> SANode \<Rightarrow> SANode outcome" where
  "add_event event_type event msg =
     (if sa_is_track event_type \<or> sa_is_track_signup event_type then
        (case event of
           None \<Rightarrow> Undefined
         | Some e \<Rightarrow> Continue (drop_status (sa_add_string (Some ''event'') e (length e) (Some msg)) msg))
      else Continue msg)"

text \<open>
  \<^verbatim>\<open>(long long)now.tv_sec * 1000 + now.tv_usec / 1000\<close> after \<^verbatim>\<open>gettimeofday\<close>.
\<close>

definition now_millis :: "SAEnv \<Rightarrow> 64 word" where
  "now_millis env = tv_sec env * 1000 + c_sdiv (tv_usec env) 1000"

definition add_time :: "SAEnv \<Rightarrow> SANode \<Rightarrow> SANode outcome" where
  "add_time env msg = status_checked (sa_add_int (Some ''time'') (now_millis env) (Some msg))"

text \<open>
  The \<^verbatim>\<open>lib\<close> dict; \<^verbatim>\<open>lib_detail_buf\<close> has 256 bytes and is filled by
  \<^verbatim>\<open>snprintf\<close> with \<^verbatim>\<open>"##%s##%s##%ld"\<close>.
\<close>

definition lib_detail :: "string \<Rightarrow> string \<Rightarrow> 64 word \<Rightarrow> string" where
  "lib_detail src_function src_file src_line =
     snprintf 256 (''##'' @ src_function @ ''##'' @ src_file @ ''##'' @ printf_0d 0 (sint src_line))"

definition lib_properties :: "string \<Rightarrow> string \<Rightarrow> 64 word \<Rightarrow> SANode" where
  "lib_properties src_file src_function src_line =
     (let l0 = sa_init_dict_node (Some ''lib'');
          l1 = drop_status (sa_add_string (Some ''$lib'') SA_LIB (length SA_LIB) (Some l0)) l0;
          l2 = drop_status (sa_add_string (Some ''$lib_version'') SA_LIB_VERSION
                 (length SA_LIB_VERSION) (Some l1)) l1;
          l3 = drop_status (sa_add_string (Some ''$lib_method'') SA_LIB_METHOD
                 (length SA_LIB_METHOD) (Some l2)) l2;
          detail = lib_detail src_function src_file src_line
      in drop_status (sa_add_string (Some ''$lib_detail'') detail (length detail) (Some l3)) l3)"

text \<open>
  The inner \<^verbatim>\<open>properties\<close> dict before the caller's properties are copied: for the two
  track types the library entries and then every child of the super properties, in the
  order of the store's list; empty otherwise.
\<close>

definition inner_properties_base :: "string \<Rightarrow> SANode \<Rightarrow> SANode" where
  "inner_properties_base event_type store =
     (let i0 = sa_init_dict_node (Some ''properties'') in
      if sa_is_track event_type \<or> sa_is_track_signup event_type then
        let i1 = drop_status (sa_add_string (Some ''$lib'') SA_LIB (length SA_LIB) (Some i0)) i0;
            i2 = drop_status (sa_add_string (Some ''$lib_version'') SA_LIB_VERSION
                   (length SA_LIB_VERSION) (Some i1)) i1
        in add_children (array store) i2
      else i0)"

text \<open>
  \<^verbatim>\<open>(long)(time_node->date_.seconds) * 1000 + (long)time_node->date_.microseconds / 1000\<close>
  with a 64-bit \<^verbatim>\<open>long\<close>.
\<close>

definition date_millis :: "64 word \<Rightarrow> 32 word \<Rightarrow> 64 word" where
  "date_millis seconds microseconds = seconds * 1000 + c_sdiv (scast microseconds) 1000"

text \<open>
  The read of \<^verbatim>\<open>time_node->date_\<close> goes through the anonymous union of
  \<^verbatim>\<open>struct SANode\<close> with no test of the tag. \<^verbatim>\<open>_sa_malloc_node\<close> clears the whole node
  with \<^verbatim>\<open>memset\<close> before the payload is stored; \<^verbatim>\<open>int_\<close> (a \<^verbatim>\<open>long long\<close>) and
  \<^verbatim>\<open>date_.seconds\<close> (a \<^verbatim>\<open>time_t\<close>) are both the 64 bits at the start of the union, and
  \<^verbatim>\<open>date_.microseconds\<close> the 32 bits after them. So the \<^verbatim>\<open>date_\<close> of a Date node is its
  own pair, and the \<^verbatim>\<open>date_\<close> of an Int node is its integer as the seconds with
  microseconds 0. What the read gives on the other payloads (the bits of a
  \<^verbatim>\<open>double\<close>, the value of a pointer, the bytes beside a 32-bit \<^verbatim>\<open>int\<close>) is outside this
  model: \<open>None\<close>.
\<close>

definition date_view :: "SABody \<Rightarrow> (64 word \<times> 32 word) option" where
  "date_view b =
     (case b of
        V_date seconds microseconds \<Rightarrow> Some (seconds, microseconds)
      | V_int i \<Rightarrow> Some (i, 0)
      | _ \<Rightarrow> None)"

text \<open>
  The loop that copies the caller's properties, over the children still to visit; it
  changes \<^verbatim>\<open>msg\<close> and \<^verbatim>\<open>inner_properties\<close>. The tests on the key are
  \<^verbatim>\<open>NULL != key && 0 == strncmp("$time", key, 256)\<close> and the same for \<^verbatim>\<open>$project\<close>.
  The \<^verbatim>\<open>$project\<close> branch reads \<^verbatim>\<open>project_node->string_\<close> and takes its \<^verbatim>\<open>strlen\<close>, which
  is defined for a String node only.
\<close>

fun copy_properties_loop ::
  "SANode \<Rightarrow> SANode list \<Rightarrow> SANode \<Rightarrow> SANode \<Rightarrow> (SANode \<times> SANode) outcome" where
  "copy_properties_loop properties [] msg inner = Continue (msg, inner)"
| "copy_properties_loop properties (cur # next) msg inner =
     (if key_matches ''$time'' cur then
        (case sa_get_child (Some ''$time'') properties of
           None \<Rightarrow> copy_properties_loop properties next msg inner
         | Some time_node \<Rightarrow>
             (case date_view (body time_node) of
                Some (seconds, microseconds) \<Rightarrow>
                  (case status_checked (sa_add_int (Some ''time'') (date_millis seconds microseconds)
                                  (Some msg)) of
                     Undefined \<Rightarrow> Undefined
                   | Return res \<Rightarrow> Return res
                   | Continue msg' \<Rightarrow> copy_properties_loop properties next msg' inner)
              | None \<Rightarrow> Undefined))
      else if key_matches ''$project'' cur then
        (case sa_get_child (Some ''$project'') properties of
           None \<Rightarrow> copy_properties_loop properties next msg inner
         | Some project_node \<Rightarrow>
             (case body project_node of
                V_string s \<Rightarrow>
                  (case status_checked (sa_add_string (Some ''project'') s (length s) (Some msg)) of
                     Undefined \<Rightarrow> Undefined
                   | Return res \<Rightarrow> Return res
                   | Continue msg' \<Rightarrow> copy_properties_loop properties next msg' inner)
              | _ \<Rightarrow> Undefined))
      else copy_properties_loop properties next msg (add_child_stmt cur inner))"

definition track_msg ::
  "SAEnv \<Rightarrow> string option \<Rightarrow> string option \<Rightarrow> string \<Rightarrow> string option \<Rightarrow> SANode option
   \<Rightarrow> string \<Rightarrow> string \<Rightarrow> 64 word \<Rightarrow> SANode \<Rightarrow> SANode outcome" where
  "track_msg env distinct_id origin_id event_type event properties src_file src_function
     src_line store =
     (case distinct_id of
        None \<Rightarrow> Undefined
      | Some did \<Rightarrow>
     obind (status_checked (sa_add_string (Some ''type'') event_type (length event_type)
                       (Some (sa_init_dict_node None)))) (\<lambda>msg.
     obind (status_checked (sa_add_string (Some ''distinct_id'') did (length did) (Some msg))) (\<lambda>msg.
     obind (add_original_id event_type origin_id msg) (\<lambda>msg.
     obind (add_event event_type event msg) (\<lambda>msg.
     obind (add_time env msg) (\<lambda>msg.
     obind (case properties of
              None \<Rightarrow>
                Continue (add_child_stmt (lib_properties src_file src_function src_line) msg,
                          inner_properties_base event_type store)
            | Some p \<Rightarrow>
                copy_properties_loop p (array p)
                  (add_child_stmt (lib_properties src_file src_function src_line) msg)
                  (inner_properties_base event_type store)) (\<lambda>(msg, inner).
     Continue (add_child_stmt inner msg))))))))"

subsection \<open>The tracking calls\<close>

text \<open>
  \<^verbatim>\<open>_sa_track_internal\<close>: validation, the envelope, its encoding into a fresh buffer and
  the consumer's \<^verbatim>\<open>send\<close>. It returns the status and the session afterwards, \<open>None\<close> where
  a step has no defined behaviour. The status of \<^verbatim>\<open>_sa_dump_node\<close> is dropped.
\<close>

definition sa_track_internal ::
  "SAEnv \<Rightarrow> string option \<Rightarrow> string option \<Rightarrow> string \<Rightarrow> string option \<Rightarrow> SANode option
   \<Rightarrow> string \<Rightarrow> string \<Rightarrow> 64 word \<Rightarrow> 'c SensorsAnalytics
   \<Rightarrow> (SAErrCode \<times> 'c SensorsAnalytics) option" where
  "sa_track_internal env distinct_id origin_id event_type event properties src_file src_function
     src_line sa =
     (let res = sa_check_legality distinct_id origin_id event_type event properties in
      if res \<noteq> SA_OK then Some (res, sa)
      else
        (case track_msg env distinct_id origin_id event_type event properties src_file
                src_function src_line (super_properties sa) of
           Undefined \<Rightarrow> None
         | Return r \<Rightarrow> Some (r, sa)
         | Continue msg \<Rightarrow>
             (case sa_dump_node env (Some msg) [] of
                None \<Rightarrow> None
              | Some (dump_res, msg_str) \<Rightarrow>
                  (case op_send (consumer sa) (this_data (consumer sa)) (Some msg_str)
                          (length msg_str) of
                     None \<Rightarrow> None
                   | Some (send_res, this') \<Rightarrow>
                       Some (send_res, sa\<lparr>consumer := (consumer sa)\<lparr>this_data := this'\<rparr>\<rparr>)))))"

definition sa_track ::
  "SAEnv \<Rightarrow> string option \<Rightarrow> string option \<Rightarrow> SANode option \<Rightarrow> string \<Rightarrow> string \<Rightarrow> 64 word
   \<Rightarrow> 'c SensorsAnalytics \<Rightarrow> (SAErrCode \<times> 'c SensorsAnalytics) option" where
  "sa_track env distinct_id event properties src_file src_function src_line sa =
     sa_track_internal env distinct_id None ''track'' event properties src_file src_function
       src_line sa"

definition sa_track_signup ::
  "SAEnv \<Rightarrow> string option \<Rightarrow> string option \<Rightarrow> SANode option \<Rightarrow> string \<Rightarrow> string \<Rightarrow> 64 word
   \<Rightarrow> 'c SensorsAnalytics \<Rightarrow> (SAErrCode \<times> 'c SensorsAnalytics) option" where
  "sa_track_signup env distinct_id origin_id properties src_file src_function src_line sa =
     sa_track_internal env distinct_id origin_id ''track_signup'' (Some ''$SignUp'') properties
       src_file src_function src_line sa"

text \<open>
  \<^verbatim>\<open>_sa_profile_set\<close>, \<^verbatim>\<open>_sa_profile_set_once\<close>, \<^verbatim>\<open>_sa_profile_increment\<close> and
  \<^verbatim>\<open>_sa_profile_append\<close> differ in the type string only.
\<close>

definition sa_profile_with ::
  "string \<Rightarrow> SAEnv \<Rightarrow> string option \<Rightarrow> SANode option \<Rightarrow> string \<Rightarrow> string \<Rightarrow> 64 word
   \<Rightarrow> 'c SensorsAnalytics \<Rightarrow> (SAErrCode \<times> 'c SensorsAnalytics) option" where
  "sa_profile_with event_type env distinct_id properties src_file src_function src_line sa =
     (if properties = None then Some (SA_INVALID_PARAMETER_ERROR, sa)
      else sa_track_internal env distinct_id None event_type None properties src_file
             src_function src_line sa)"

definition sa_profile_set ::
  "SAEnv \<Rightarrow> string option \<Rightarrow> SANode option \<Rightarrow> string \<Rightarrow> string \<Rightarrow> 64 word
   \<Rightarrow> 'c SensorsAnalytics \<Rightarrow> (SAErrCode \<times> 'c SensorsAnalytics) option" where
  "sa_profile_set = sa_profile_with ''profile_set''"

definition sa_profile_set_once ::
  "SAEnv \<Rightarrow> string option \<Rightarrow> SANode option \<Rightarrow> string \<Rightarrow> string \<Rightarrow> 64 word
   \<Rightarrow> 'c SensorsAnalytics \<Rightarrow> (SAErrCode \<times> 'c SensorsAnalytics) option" where
  "sa_profile_set_once = sa_profile_with ''profile_set_once''"

definition sa_profile_increment ::
  "SAEnv \<Rightarrow> string option \<Rightarrow> SANode option \<Rightarrow> string \<Rightarrow> string \<Rightarrow> 64 word
   \<Rightarrow> 'c SensorsAnalytics \<Rightarrow> (SAErrCode \<times> 'c SensorsAnalytics) option" where
  "sa_profile_increment = sa_profile_with ''profile_increment''"

definition sa_profile_append ::
  "SAEnv \<Rightarrow> string option \<Rightarrow> SANode option \<Rightarrow> string \<Rightarrow> string \<Rightarrow> 64 word
   \<Rightarrow> 'c SensorsAnalytics \<Rightarrow> (SAErrCode \<times> 'c SensorsAnalytics) option" where
  "sa_profile_append = sa_profile_with ''profile_append''"

definition sa_profile_unset ::
  "SAEnv \<Rightarrow> string option \<Rightarrow> string option \<Rightarrow> string \<Rightarrow> string \<Rightarrow> 64 word
   \<Rightarrow> 'c SensorsAnalytics \<Rightarrow> (SAErrCode \<times> 'c SensorsAnalytics) option" where
  "sa_profile_unset env distinct_id k src_file src_function src_line sa =
     sa_track_internal env distinct_id None ''profile_unset'' None
       (snd (sa_add_bool k 1 (Some sa_init_properties))) src_file src_function src_line sa"

definition sa_profile_delete ::
  "SAEnv \<Rightarrow> string option \<Rightarrow> string \<Rightarrow> string \<Rightarrow> 64 word
   \<Rightarrow> 'c SensorsAnalytics \<Rightarrow> (SAErrCode \<times> 'c SensorsAnalytics) option" where
  "sa_profile_delete env distinct_id src_file src_function src_line sa =
     sa_track_internal env distinct_id None ''profile_delete'' None (Some sa_init_properties)
       src_file src_function src_line sa"

text \<open>The type strings of the six profile operations.\<close>

definition profile_types :: "string list" where
  "profile_types =
     [''profile_set'', ''profile_set_once'', ''profile_increment'', ''profile_append'',
      ''profile_unset'', ''profile_delete'']"


subsection \<open>Vocabulary for the properties of the envelope\<close>

text \<open>
  A failed validation in the words of the specification: the distinct id has no
  length between 1 and 255; or the call is a sign-up and the origin id has none; or the
  call is \<^verbatim>\<open>track\<close> and the event name is refused by the name validator; or a key of
  the supplied properties is.
\<close>

definition validation_fails ::
  "string option \<Rightarrow> string option \<Rightarrow> string \<Rightarrow> string option \<Rightarrow> SANode option \<Rightarrow> bool" where
  "validation_fails distinct_id origin_id event_type event properties =
     (bad_id_length distinct_id
      \<or> (event_type = ''track_signup'' \<and> bad_id_length origin_id)
      \<or> (event_type = ''track'' \<and> sa_assert_key_name event \<noteq> SA_OK)
      \<or> (case properties of
            None \<Rightarrow> False
          | Some p \<Rightarrow> list_ex (\<lambda>c. sa_assert_key_name (key c) \<noteq> SA_OK) (array p)))"

text \<open>
  The two keys the copy treats specially, and the properties the copy is written for:
  the properties object is a dict, its \<^verbatim>\<open>$time\<close> child (if any) is a date and its
  \<^verbatim>\<open>$project\<close> child (if any) a string.
\<close>

definition is_special :: "SANode \<Rightarrow> bool" where
  "is_special c = (key_matches ''$time'' c \<or> key_matches ''$project'' c)"

definition time_ok :: "SANode \<Rightarrow> bool" where
  "time_ok p =
     (case sa_get_child (Some ''$time'') p of None \<Rightarrow> True | Some n \<Rightarrow> tag n = SA_DATE)"

definition project_ok :: "SANode \<Rightarrow> bool" where
  "project_ok p =
     (case sa_get_child (Some ''$project'') p of None \<Rightarrow> True | Some n \<Rightarrow> tag n = SA_STRING)"

definition specials_well_typed :: "SANode option \<Rightarrow> bool" where
  "specials_well_typed properties =
     (case properties of
        None \<Rightarrow> True
      | Some p \<Rightarrow> tag p = SA_DICT \<and> time_ok p \<and> project_ok p)"

text \<open>The date of the supplied \<^verbatim>\<open>$time\<close> entry and the string of the supplied \<^verbatim>\<open>$project\<close> entry.\<close>

definition supplied_time :: "SANode option \<Rightarrow> (64 word \<times> 32 word) option" where
  "supplied_time properties =
     (case properties of
        None \<Rightarrow> None
      | Some p \<Rightarrow>
          (case sa_get_child (Some ''$time'') p of
             None \<Rightarrow> None
           | Some n \<Rightarrow> (case body n of V_date s u \<Rightarrow> Some (s, u) | _ \<Rightarrow> None)))"

definition supplied_project :: "SANode option \<Rightarrow> string option" where
  "supplied_project properties =
     (case properties of
        None \<Rightarrow> None
      | Some p \<Rightarrow>
          (case sa_get_child (Some ''$project'') p of
             None \<Rightarrow> None
           | Some n \<Rightarrow> (case body n of V_string s \<Rightarrow> Some s | _ \<Rightarrow> None)))"

text \<open>
  The wider condition under which the embedding gives the copy a result: the \<^verbatim>\<open>$time\<close>
  child may also be an Int node. \<open>read_time\<close> is what the copy reads as the date of the
  supplied \<^verbatim>\<open>$time\<close> entry.
\<close>

definition time_readable :: "SANode \<Rightarrow> bool" where
  "time_readable p =
     (case sa_get_child (Some ''$time'') p of
        None \<Rightarrow> True
      | Some n \<Rightarrow> tag n = SA_DATE \<or> tag n = SA_INT)"

definition specials_readable :: "SANode option \<Rightarrow> bool" where
  "specials_readable properties =
     (case properties of
        None \<Rightarrow> True
      | Some p \<Rightarrow> tag p = SA_DICT \<and> time_readable p \<and> project_ok p)"

definition read_time :: "SANode option \<Rightarrow> (64 word \<times> 32 word) option" where
  "read_time properties =
     (case properties of
        None \<Rightarrow> None
      | Some p \<Rightarrow>
          (case sa_get_child (Some ''$time'') p of
             None \<Rightarrow> None
           | Some n \<Rightarrow> date_view (body n)))"

text \<open>The children of the supplied properties, none when the pointer is \<^verbatim>\<open>NULL\<close>.\<close>

definition supplied_children :: "SANode option \<Rightarrow> SANode list" where
  "supplied_children props = (case props of None \<Rightarrow> [] | Some p \<Rightarrow> array p)"

definition time_node :: "64 word \<Rightarrow> SANode" where
  "time_node t = SANode (Some ''time'') (V_int t)"

definition project_node :: "string \<Rightarrow> SANode" where
  "project_node s = SANode (Some ''project'') (V_string s)"

definition event_node :: "string \<Rightarrow> SANode" where
  "event_node e = SANode (Some ''event'') (V_string e)"

text \<open>A field of the envelope that was built, \<open>None\<close> when none was built or it has no such field.\<close>

definition envelope_field :: "string \<Rightarrow> SANode outcome \<Rightarrow> SANode option" where
  "envelope_field k r =
     (case r of Continue msg \<Rightarrow> sa_get_child (Some k) msg | Return res \<Rightarrow> None | Undefined \<Rightarrow> None)"

text \<open>All the fields of the envelope that was built whose key is \<open>k\<close>, in the order of its list.\<close>

definition envelope_fields :: "string \<Rightarrow> SANode outcome \<Rightarrow> SANode list" where
  "envelope_fields k r =
     (case r of
        Continue msg \<Rightarrow> filter (key_matches k) (array msg)
      | Return res \<Rightarrow> []
      | Undefined \<Rightarrow> [])"

text \<open>
  The envelope of a validated call when the copy of the caller's properties starts:
  type, distinct id, original id and event where the type asks for them, the clock's
  time, and the \<^verbatim>\<open>lib\<close> dict.
\<close>

definition envelope_head ::
  "SAEnv \<Rightarrow> string \<Rightarrow> string option \<Rightarrow> string \<Rightarrow> string option \<Rightarrow> string \<Rightarrow> string \<Rightarrow> 64 word
   \<Rightarrow> SANode" where
  "envelope_head env did origin_id event_type event src_file src_function src_line =
     (let m1 = add_child_stmt (SANode (Some ''type'') (V_string event_type)) (sa_init_dict_node None);
          m2 = add_child_stmt (SANode (Some ''distinct_id'') (V_string did)) m1;
          m3 = (case origin_id of
                  Some oid \<Rightarrow>
                    if sa_is_track_signup event_type
                    then add_child_stmt (SANode (Some ''original_id'') (V_string oid)) m2 else m2
                | None \<Rightarrow> m2);
          m4 = (case event of
                  Some e \<Rightarrow>
                    if sa_is_track event_type \<or> sa_is_track_signup event_type
                    then add_child_stmt (event_node e) m3 else m3
                | None \<Rightarrow> m3);
          m5 = add_child_stmt (time_node (now_millis env)) m4
      in add_child_stmt (lib_properties src_file src_function src_line) m5)"

subsection \<open>A concrete environment and session\<close>

text \<open>
  An environment (noon of a day in January 2017, in the local time zone) and a
  session whose consumer records what it is sent, for evaluating the definitions.
\<close>

definition demo_env :: SAEnv where
  "demo_env =
     \<lparr>tv_sec = 1484280000, tv_usec = 123456, time_now = 1484280000,
      localtime = (\<lambda>t. \<lparr>tm_sec = 0, tm_min = 0, tm_hour = 12, tm_mday = 13, tm_mon = 0,
                          tm_year = 117\<rparr>),
      fmt_f3 = (\<lambda>x. ''0.000'')\<rparr>"

definition recording_consumer :: "string list SAConsumer" where
  "recording_consumer =
     \<lparr>op_send = (\<lambda>sent event len.
         case event of None \<Rightarrow> Some (SA_INVALID_PARAMETER_ERROR, sent)
                     | Some e \<Rightarrow> Some (SA_OK, sent @ [take len e])),
      this_data = []\<rparr>"

definition demo_properties :: SANode where
  "demo_properties =
     SANode (Some ''properties'')
       (V_dict [SANode (Some ''$project'') (V_string ''Foo''),
                SANode (Some ''$time'') (V_date 1500000000 250000),
                SANode (Some ''os'') (V_string ''iOS'')])"

text \<open>Properties whose \<^verbatim>\<open>$time\<close> entry was added with \<^verbatim>\<open>sa_add_int\<close>.\<close>

definition demo_int_time_properties :: SANode where
  "demo_int_time_properties =
     SANode (Some ''properties'')
       (V_dict [SANode (Some ''$time'') (V_int 5),
                SANode (Some ''os'') (V_string ''iOS'')])"

definition demo_sa :: "string list SensorsAnalytics" where
  "demo_sa = \<lparr>super_properties = sa_init_properties, consumer = recording_consumer\<rparr>"

text \<open>
  Super properties as \<^verbatim>\<open>sa_register_super_properties\<close> leaves them after a call with a
  \<^verbatim>\<open>$project\<close> and a \<^verbatim>\<open>vip\<close> entry.
\<close>

definition demo_store :: SANode where
  "demo_store =
     super_properties (snd (sa_register_super_properties
       (Some (SANode (Some ''properties'')
          (V_dict [SANode (Some ''$project'') (V_string ''X''),
                   SANode (Some ''vip'') (V_bool 1)])))
       demo_sa))"





section \<open>Properties of the value tree\<close>

lemma tag_set_array [simp]: "tag (set_array n cs) = tag n"
  by (cases n; cases "body n") (simp_all add: tag_def set_array_def)

lemma key_set_array [simp]: "key (set_array n cs) = key n"
  by (simp add: set_array_def)

lemma array_set_array [simp]:
  "tag n = SA_DICT \<or> tag n = SA_LIST \<Longrightarrow> array (set_array n cs) = cs"
  by (cases n; cases "body n") (simp_all add: tag_def set_array_def array_def)

lemma set_array_set_array [simp]: "set_array (set_array n cs) cs' = set_array n cs'"
  by (cases n; cases "body n") (simp_all add: set_array_def)

lemma remove_child_loop_filter:
  "remove_child_loop (Some k) cs = filter (\<lambda>c. \<not> key_matches k c) cs"
  by (induction cs) simp_all

lemma get_child_loop_head:
  "key_matches k c \<Longrightarrow> get_child_loop k (c # cs) = Some c"
  by simp

lemma key_matches_self: "key c = Some k \<Longrightarrow> key_matches k c"
  by (simp add: key_matches_def strncmp_eq_def)

lemma key_matches_exact: "key c = Some k \<Longrightarrow> key c' = Some k \<Longrightarrow> key_matches k c'"
  by (simp add: key_matches_def strncmp_eq_def)

lemma sa_add_child_dict_array:
  assumes "tag d = SA_DICT" and "key v = Some k"
  shows "sa_add_child v d = Some (set_array d (v # filter (\<lambda>c. \<not> key_matches k c) (array d)))"
  using assms
  by (simp add: sa_add_child_def sa_remove_child_def remove_child_loop_filter Let_def)

lemma add_child_stmt_dict:
  assumes "tag d = SA_DICT" and "key v = Some k"
  shows "add_child_stmt v d = set_array d (v # filter (\<lambda>c. \<not> key_matches k c) (array d))"
  using assms by (simp add: add_child_stmt_def sa_add_child_dict_array)

lemma add_child_stmt_dict_tag:
  "tag d = SA_DICT \<Longrightarrow> tag (add_child_stmt v d) = SA_DICT"
  by (simp add: add_child_stmt_def sa_add_child_def Let_def sa_remove_child_def)

lemma add_child_stmt_key: "key (add_child_stmt v d) = key d"
  by (simp add: add_child_stmt_def sa_add_child_def Let_def sa_remove_child_def)

lemma add_child_stmt_dict_array:
  assumes "tag d = SA_DICT" and "key v = Some k"
  shows "array (add_child_stmt v d) = v # filter (\<lambda>c. \<not> key_matches k c) (array d)"
  using assms by (simp add: add_child_stmt_dict)

text \<open>A key of at most 255 bytes matches exactly the children that carry it.\<close>

lemma key_matches_short:
  assumes "length k \<le> 255"
  shows "key_matches k c \<longleftrightarrow> key c = Some k"
proof (cases "key c")
  case None
  then show ?thesis by (simp add: key_matches_def)
next
  case (Some ck)
  have "take 256 ck = k \<longleftrightarrow> ck = k"
  proof
    assume h: "take 256 ck = k"
    then have "length (take 256 ck) \<le> 255" using assms by simp
    then have "length ck \<le> 255" by (simp add: min_def split: if_splits)
    then show "ck = k" using h by simp
  next
    assume "ck = k"
    then show "take 256 ck = k" using assms by simp
  qed
  then show ?thesis using assms by (simp add: key_matches_def strncmp_eq_def Some)
qed

lemma add_children_dict:
  "tag d = SA_DICT \<Longrightarrow> list_all (\<lambda>c. key c \<noteq> None) cs \<Longrightarrow>
   tag (add_children cs d) = SA_DICT \<and> key (add_children cs d) = key d \<and>
   array (add_children cs d) =
     rev (last_per_key cs) @ filter (\<lambda>y. \<not> list_ex (\<lambda>x. displaces x y) cs) (array d)"
proof (induction cs arbitrary: d)
  case Nil
  then show ?case by simp
next
  case (Cons c cs)
  from Cons.prems obtain k where k: "key c = Some k" by auto
  let ?d' = "add_child_stmt c d"
  have t: "tag ?d' = SA_DICT" using Cons.prems(1) by (rule add_child_stmt_dict_tag)
  have a: "array ?d' = c # filter (\<lambda>y. \<not> key_matches k y) (array d)"
    using Cons.prems(1) k by (rule add_child_stmt_dict_array)
  have rest: "list_all (\<lambda>c. key c \<noteq> None) cs" using Cons.prems(2) by simp
  note IH = Cons.IH [OF t rest]
  have dis: "\<And>y. displaces c y = key_matches k y" by (simp add: displaces_def k)
  show ?case
    using IH by (auto simp: a dis add_child_stmt_key filter_filter intro: filter_cong)
qed

lemma get_child_added:
  assumes "tag d = SA_DICT" and "key v = Some k"
  shows "sa_get_child (Some k) (add_child_stmt v d) = Some v"
  using assms
  by (simp add: add_child_stmt_dict_array add_child_stmt_dict_tag sa_get_child_def
      key_matches_self)

lemma one_visible:
  assumes "tag d = SA_DICT" and "key v = Some k"
  shows "filter (key_matches k) (array (add_child_stmt v d)) = [v]"
  using assms by (simp add: add_child_stmt_dict_array key_matches_self)

lemma one_visible_exact:
  assumes "tag d = SA_DICT" and "key v = Some k"
  shows "filter (\<lambda>c. key c = Some k) (array (add_child_stmt v d)) = [v]"
proof -
  have "filter (\<lambda>c. key c = Some k) (filter (\<lambda>c. \<not> key_matches k c) (array d)) = []"
    by (auto simp: filter_empty_conv key_matches_def strncmp_eq_def)
  then show ?thesis using assms by (simp add: add_child_stmt_dict_array)
qed

text \<open>
  Claim C1. Adding a child \<open>v\<close> with key \<open>k\<close> to a dict \<open>d\<close> succeeds; the children
  afterwards are \<open>v\<close> followed by the former children that \<open>k\<close> does not match, in their
  former order (for a key of at most 255 bytes these are the children whose key differs
  from \<open>k\<close>); looking \<open>k\<close> up then returns \<open>v\<close>, and \<open>v\<close> is the only child with key
  \<open>k\<close>, and the only one \<open>k\<close> matches. After a sequence \<open>cs\<close> of keyed insertions the
  children are the insertions still visible, the latest first, followed by the older
  children none of them displaced: enumeration is in reverse order of insertion.
\<close>

theorem add_child_dict_replaces_and_prepends:
  assumes "tag d = SA_DICT" and "key v = Some k"
  shows "sa_add_child v d =
           Some (set_array d (v # filter (\<lambda>c. \<not> key_matches k c) (array d)))
       \<and> array (add_child_stmt v d) = v # filter (\<lambda>c. \<not> key_matches k c) (array d)
       \<and> (length k \<le> 255 \<longrightarrow>
            array (add_child_stmt v d) = v # filter (\<lambda>c. key c \<noteq> Some k) (array d))
       \<and> sa_get_child (Some k) (add_child_stmt v d) = Some v
       \<and> filter (\<lambda>c. key c = Some k) (array (add_child_stmt v d)) = [v]
       \<and> filter (key_matches k) (array (add_child_stmt v d)) = [v]
       \<and> (list_all (\<lambda>c. key c \<noteq> None) cs \<longrightarrow>
            array (add_children cs d) =
              rev (last_per_key cs) @
              filter (\<lambda>y. \<not> list_ex (\<lambda>x. displaces x y) cs) (array d))"
proof -
  note a = add_child_stmt_dict_array [OF assms]
  have short: "length k \<le> 255 \<longrightarrow>
      array (add_child_stmt v d) = v # filter (\<lambda>c. key c \<noteq> Some k) (array d)"
    by (simp add: a key_matches_short)
  have order: "list_all (\<lambda>c. key c \<noteq> None) cs \<longrightarrow>
      array (add_children cs d) =
        rev (last_per_key cs) @ filter (\<lambda>y. \<not> list_ex (\<lambda>x. displaces x y) cs) (array d)"
    using add_children_dict [OF assms(1)] by blast
  from sa_add_child_dict_array [OF assms] a short get_child_added [OF assms]
    one_visible_exact [OF assms] one_visible [OF assms] order
  show ?thesis by blast
qed

theorem add_child_dict_replaces_and_prepends_witness:
  "sa_get_child (Some ''a'')
     (add_child_stmt (SANode (Some ''a'') (V_int 3))
        (SANode (Some ''properties'')
           (V_dict [SANode (Some ''a'') (V_int 1), SANode (Some ''b'') (V_int 2)])))
     = Some (SANode (Some ''a'') (V_int 3))
   \<and> array (add_child_stmt (SANode (Some ''a'') (V_int 3))
        (SANode (Some ''properties'')
           (V_dict [SANode (Some ''a'') (V_int 1), SANode (Some ''b'') (V_int 2)])))
     = [SANode (Some ''a'') (V_int 3), SANode (Some ''b'') (V_int 2)]
   \<and> array (add_children [SANode (Some ''c'') (V_int 4), SANode (Some ''a'') (V_int 5)]
        (SANode (Some ''properties'')
           (V_dict [SANode (Some ''a'') (V_int 1), SANode (Some ''b'') (V_int 2)])))
     = [SANode (Some ''a'') (V_int 5), SANode (Some ''c'') (V_int 4),
        SANode (Some ''b'') (V_int 2)]"
  using add_child_dict_replaces_and_prepends
    [of "SANode (Some ''properties'')
           (V_dict [SANode (Some ''a'') (V_int 1), SANode (Some ''b'') (V_int 2)])"
        "SANode (Some ''a'') (V_int 3)" "''a''"
        "[SANode (Some ''c'') (V_int 4), SANode (Some ''a'') (V_int 5)]"]
  by (simp add: tag_def array_def displaces_def key_matches_def strncmp_eq_def)

text \<open>
  Claim C10. On a dict, each scalar property builder called with a \<^verbatim>\<open>NULL\<close> key
  returns \<^verbatim>\<open>SA_OK\<close> and leaves the dict as it was: the child is created, refused by
  \<^verbatim>\<open>_sa_add_child\<close>, and released.
\<close>

theorem builders_null_key_ok_and_unchanged:
  assumes "tag p = SA_DICT"
  shows "sa_add_bool None b (Some p) = (SA_OK, Some p)
       \<and> sa_add_number None x (Some p) = (SA_OK, Some p)
       \<and> sa_add_int None i (Some p) = (SA_OK, Some p)
       \<and> sa_add_date None s u (Some p) = (SA_OK, Some p)
       \<and> sa_add_string None str n (Some p) = (SA_OK, Some p)"
  using assms
  by (simp add: sa_add_bool_def sa_add_number_def sa_add_int_def sa_add_date_def
      sa_add_string_def add_child_stmt_def sa_add_child_def sa_init_bool_node_def
      sa_init_number_node_def sa_init_int_node_def sa_init_date_node_def
      sa_init_string_node_def)

theorem builders_null_key_ok_and_unchanged_witness:
  "tag sa_init_properties = SA_DICT
   \<and> sa_add_bool None 1 (Some sa_init_properties) = (SA_OK, Some sa_init_properties)
   \<and> sa_add_int None 7 (Some sa_init_properties) = (SA_OK, Some sa_init_properties)
   \<and> sa_add_date None 1500000000 5 (Some sa_init_properties)
       = (SA_OK, Some sa_init_properties)
   \<and> sa_add_string None ''abc'' 3 (Some sa_init_properties)
       = (SA_OK, Some sa_init_properties)"
proof -
  have t: "tag sa_init_properties = SA_DICT"
    by (simp add: sa_init_properties_def sa_init_dict_node_def tag_def)
  show ?thesis
    using t builders_null_key_ok_and_unchanged [OF t, of 1 _ 7 1500000000 5 "''abc''" 3]
    by simp
qed

section \<open>Properties of name validation\<close>

lemma of_char_other_case:
  "(of_char (other_case c) :: nat) =
     (let n = of_char c in
      if 65 \<le> n \<and> n \<le> 90 then n + 32 else if 97 \<le> n \<and> n \<le> 122 then n - 32 else n)"
proof -
  have m: "n \<le> 122 \<Longrightarrow> (n - 32) mod 256 = n - 32" for n :: nat
    by (rule mod_less) arith
  show ?thesis by (simp add: other_case_def Let_def m)
qed

lemma of_char_to_lower:
  "(of_char (to_lower c) :: nat) =
     (let n = of_char c in if 65 \<le> n \<and> n \<le> 90 then n + 32 else n)"
  by (simp add: to_lower_def Let_def)

lemma chr_icase_iff: "chr_icase c x \<longleftrightarrow> to_lower x = to_lower c"
proof -
  have "chr_icase c x \<longleftrightarrow>
      ((of_char x :: nat) = of_char c \<or> (of_char x :: nat) = of_char (other_case c))"
    by (simp add: chr_icase_def)
  also have "\<dots> \<longleftrightarrow> (of_char (to_lower x) :: nat) = of_char (to_lower c)"
    unfolding of_char_other_case of_char_to_lower Let_def by (auto; arith)
  also have "\<dots> \<longleftrightarrow> to_lower x = to_lower c" by simp
  finally show ?thesis .
qed




lemma range_chars:
  assumes "hi < 256"
  shows "x \<in> set (map char_of [lo..<Suc hi]) \<longleftrightarrow> lo \<le> (of_char x :: nat) \<and> (of_char x :: nat) \<le> hi"
proof
  assume "x \<in> set (map char_of [lo..<Suc hi])"
  then obtain n where n: "x = char_of n" "lo \<le> n" "n \<le> hi" by auto
  then have "(of_char x :: nat) = n" using assms by simp
  then show "lo \<le> (of_char x :: nat) \<and> (of_char x :: nat) \<le> hi" using n by simp
next
  assume "lo \<le> (of_char x :: nat) \<and> (of_char x :: nat) \<le> hi"
  then have "(of_char x :: nat) \<in> set [lo..<Suc hi]" by auto
  then have "char_of (of_char x :: nat) \<in> char_of ` set [lo..<Suc hi]" by (rule imageI)
  then show "x \<in> set (map char_of [lo..<Suc hi])" by simp
qed

lemma lower_chars: "lower_letters = map char_of [97..<Suc (122::nat)]"
  unfolding lower_letters_def by code_simp

lemma upper_chars: "upper_letters = map char_of [65..<Suc (90::nat)]"
  unfolding upper_letters_def by code_simp

lemma digit_chars: "digits = map char_of [48..<Suc (57::nat)]"
  unfolding digits_def by code_simp

lemma lower_codes: "x \<in> set lower_letters \<longleftrightarrow> 97 \<le> (of_char x :: nat) \<and> (of_char x :: nat) \<le> 122"
  unfolding lower_chars by (rule range_chars) simp

lemma upper_codes: "x \<in> set upper_letters \<longleftrightarrow> 65 \<le> (of_char x :: nat) \<and> (of_char x :: nat) \<le> 90"
  unfolding upper_chars by (rule range_chars) simp

lemma digit_codes: "x \<in> set digits \<longleftrightarrow> 48 \<le> (of_char x :: nat) \<and> (of_char x :: nat) \<le> 57"
  unfolding digit_chars by (rule range_chars) simp

lemma punct_codes: "x \<in> set ''_$'' \<longleftrightarrow> (of_char x :: nat) = 95 \<or> (of_char x :: nat) = 36"
proof -
  have "x = CHR ''_'' \<longleftrightarrow> (of_char x :: nat) = of_char CHR ''_''"
    and "x = CHR ''$'' \<longleftrightarrow> (of_char x :: nat) = of_char CHR ''$''"
    by (simp_all only: of_char_eq_iff)
  then show ?thesis by simp
qed

lemma name_first_codes:
  "x \<in> set name_first \<longleftrightarrow>
     (65 \<le> (of_char x :: nat) \<and> (of_char x :: nat) \<le> 90) \<or>
     (97 \<le> (of_char x :: nat) \<and> (of_char x :: nat) \<le> 122) \<or>
     (of_char x :: nat) = 95 \<or> (of_char x :: nat) = 36"
  unfolding name_first_def set_append Un_iff lower_codes upper_codes punct_codes by blast

lemma name_rest_codes:
  "x \<in> set name_rest \<longleftrightarrow>
     (65 \<le> (of_char x :: nat) \<and> (of_char x :: nat) \<le> 90) \<or>
     (97 \<le> (of_char x :: nat) \<and> (of_char x :: nat) \<le> 122) \<or>
     (48 \<le> (of_char x :: nat) \<and> (of_char x :: nat) \<le> 57) \<or>
     (of_char x :: nat) = 95 \<or> (of_char x :: nat) = 36"
  unfolding name_rest_def set_append Un_iff lower_codes upper_codes digit_codes punct_codes
  by blast


lemma bracket_first_iff:
  "bracket_icase [(CHR ''a'', CHR ''z''), (CHR ''A'', CHR ''Z''), (CHR ''_'', CHR ''_''),
               (CHR ''$'', CHR ''$'')] x \<longleftrightarrow> x \<in> set name_first"
proof -
  define n where "n = (of_char x :: nat)"
  have "bracket_icase [(CHR ''a'', CHR ''z''), (CHR ''A'', CHR ''Z''), (CHR ''_'', CHR ''_''),
               (CHR ''$'', CHR ''$'')] x \<longleftrightarrow>
        (65 \<le> n \<and> n \<le> 90) \<or> (97 \<le> n \<and> n \<le> 122) \<or> n = 95 \<or> n = 36"
    unfolding bracket_icase_def in_range_def of_char_other_case Let_def n_def [symmetric]
    by (simp split: if_splits) arith
  then show ?thesis unfolding name_first_codes n_def .
qed

lemma bracket_rest_iff:
  "bracket_icase [(CHR ''a'', CHR ''z''), (CHR ''A'', CHR ''Z''), (CHR ''0'', CHR ''9''),
                    (CHR ''_'', CHR ''_''), (CHR ''$'', CHR ''$'')] x \<longleftrightarrow> x \<in> set name_rest"
proof -
  define n where "n = (of_char x :: nat)"
  have "bracket_icase [(CHR ''a'', CHR ''z''), (CHR ''A'', CHR ''Z''), (CHR ''0'', CHR ''9''),
                    (CHR ''_'', CHR ''_''), (CHR ''$'', CHR ''$'')] x \<longleftrightarrow>
        (65 \<le> n \<and> n \<le> 90) \<or> (97 \<le> n \<and> n \<le> 122) \<or> (48 \<le> n \<and> n \<le> 57)
         \<or> n = 95 \<or> n = 36"
    unfolding bracket_icase_def in_range_def of_char_other_case Let_def n_def [symmetric]
    by (simp split: if_splits) arith
  then show ?thesis unfolding name_rest_codes n_def .
qed


lemma alt_any_nonempty: "alt_any ms p \<noteq> [] \<longleftrightarrow> (\<exists>m\<in>set ms. m p \<noteq> [])"
  by (auto simp: alt_any_def)

lemma regexec_Alt: "regexec (Alt rs) s \<longleftrightarrow> (\<exists>r\<in>set rs. regexec r s)"
  by (auto simp: regexec_def list_ex_iff alt_any_nonempty)

lemma regexec_Bol_Seq:
  "regexec (Seq (Bol # rs)) s \<longleftrightarrow> seq_all (map rmatch rs) (True, s) \<noteq> []"
proof -
  have "rmatch (Seq (Bol # rs)) (i = 0, drop i s) \<noteq> [] \<longleftrightarrow>
        i = 0 \<and> seq_all (map rmatch rs) (True, s) \<noteq> []" for i
    by (cases "i = 0") simp_all
  then show ?thesis by (auto simp: regexec_def list_ex_iff)
qed

lemma seq_word_Eol:
  "seq_all (map rmatch (map Chr w @ [Eol])) (b, s) \<noteq> [] \<longleftrightarrow> list_all2 (\<lambda>x c. chr_icase c x) s w"
proof (induction w arbitrary: b s)
  case Nil
  then show ?case by simp
next
  case (Cons c w)
  show ?case
  proof (cases s)
    case Nil
    then show ?thesis by (simp add: step_char_def)
  next
    case (Cons x xs)
    then show ?thesis using Cons.IH [of False xs] by (simp add: step_char_def)
  qed
qed

lemma icase_word_eq:
  "list_all2 (\<lambda>x c. chr_icase c x) s w \<longleftrightarrow> map to_lower s = map to_lower w"
  unfolding chr_icase_iff
proof (induction s arbitrary: w)
  case Nil
  then show ?case by auto
next
  case (Cons x xs)
  then show ?case by (cases w) auto
qed

lemma regexec_anchored_word:
  "regexec (anchored_word w) s \<longleftrightarrow> map to_lower s = map to_lower w"
  unfolding anchored_word_def regexec_Bol_Seq seq_word_Eol icase_word_eq ..

lemma regexec_KEY_WORD_PATTERN:
  "regexec KEY_WORD_PATTERN s \<longleftrightarrow> list_ex (\<lambda>w. map to_lower s = map to_lower w) reserved_words"
  unfolding KEY_WORD_PATTERN_def reserved_words_def [symmetric] regexec_Alt list_ex_iff
  by (simp add: regexec_anchored_word)

lemma rep_step_char_end:
  "(\<exists>q\<in>set (rep (step_char P) 0 n (b, s)). snd q = []) \<longleftrightarrow> length s \<le> n \<and> list_all P s"
proof (induction n arbitrary: b s)
  case 0
  then show ?case by auto
next
  case (Suc n)
  show ?case
  proof (cases s)
    case Nil
    then show ?thesis by simp
  next
    case (Cons x xs)
    then show ?thesis using Suc.IH [of False xs] by (auto simp: step_char_def)
  qed
qed

lemma seq_rep_Eol:
  "seq_all [rep (step_char P) 0 n, rmatch Eol] p \<noteq> [] \<longleftrightarrow>
     length (snd p) \<le> n \<and> list_all P (snd p)"
proof -
  have "seq_all [rep (step_char P) 0 n, rmatch Eol] p \<noteq> [] \<longleftrightarrow>
        (\<exists>q\<in>set (rep (step_char P) 0 n (fst p, snd p)). snd q = [])"
    by auto
  then show ?thesis unfolding rep_step_char_end .
qed

lemma regexec_NAME_PATTERN:
  "regexec NAME_PATTERN s \<longleftrightarrow>
     (case s of [] \<Rightarrow> False
      | c # cs \<Rightarrow> c \<in> set name_first \<and> length cs \<le> 99 \<and> list_all (\<lambda>x. x \<in> set name_rest) cs)"
proof (cases s)
  case Nil
  then show ?thesis
    unfolding NAME_PATTERN_def regexec_Bol_Seq by (simp add: step_char_def)
next
  case (Cons c cs)
  have "regexec NAME_PATTERN s \<longleftrightarrow>
        c \<in> set name_first \<and>
        seq_all [rep (step_char (\<lambda>x. x \<in> set name_rest)) 0 99, rmatch Eol] (False, cs) \<noteq> []"
    unfolding NAME_PATTERN_def regexec_Bol_Seq Cons
    by (simp add: step_char_def bracket_first_iff bracket_rest_iff [abs_def] del: seq_all.simps rep.simps
          add: seq_all.simps(2) [of _ "_ # _"])
  then show ?thesis unfolding seq_rep_Eol by (simp add: Cons)
qed

lemma assert_key_name_iff:
  "sa_assert_key_name (Some n) = SA_OK \<longleftrightarrow> NameValidator n"
  unfolding sa_assert_key_name_def NameValidator_def regexec_KEY_WORD_PATTERN regexec_NAME_PATTERN
  by (auto split: list.splits)

lemma assert_key_name_codes:
  "sa_assert_key_name k = SA_OK \<or> sa_assert_key_name k = SA_INVALID_PARAMETER_ERROR"
  by (simp add: sa_assert_key_name_def split: option.splits)

lemma NameValidator_length: "NameValidator n \<Longrightarrow> 1 \<le> length n \<and> length n \<le> 100"
  by (cases n) (auto simp: NameValidator_def)

text \<open>
  Claim C5. \<^verbatim>\<open>_sa_assert_key_name\<close> accepts a name exactly when the specification's
  validator does: length between 1 and 255, no reserved word up to letter case, and the
  identifier grammar with at most 99 bytes after the first. Every other name, and the
  \<^verbatim>\<open>NULL\<close> name, gets the invalid-parameter status; so does every name of more than 100
  bytes, in particular those of 101 to 255 bytes.
\<close>

theorem assert_key_name_refines_NameValidator:
  "(sa_assert_key_name (Some n) = SA_OK \<longleftrightarrow> NameValidator n)
   \<and> (\<not> NameValidator n \<longrightarrow> sa_assert_key_name (Some n) = SA_INVALID_PARAMETER_ERROR)
   \<and> sa_assert_key_name None = SA_INVALID_PARAMETER_ERROR
   \<and> (101 \<le> length n \<longrightarrow> sa_assert_key_name (Some n) = SA_INVALID_PARAMETER_ERROR)"
proof -
  have a: "sa_assert_key_name (Some n) = SA_OK \<longleftrightarrow> NameValidator n"
    by (rule assert_key_name_iff)
  have b: "\<not> NameValidator n \<longrightarrow> sa_assert_key_name (Some n) = SA_INVALID_PARAMETER_ERROR"
    using a assert_key_name_codes [of "Some n"] by blast
  have c: "sa_assert_key_name None = SA_INVALID_PARAMETER_ERROR"
    by (simp add: sa_assert_key_name_def)
  have d: "101 \<le> length n \<longrightarrow> sa_assert_key_name (Some n) = SA_INVALID_PARAMETER_ERROR"
    using b NameValidator_length [of n] by auto
  from a b c d show ?thesis by blast
qed

lemma NameValidator_product_name: "NameValidator ''product_name''"
  by code_simp

lemma not_NameValidator_Time: "\<not> NameValidator ''Time''"
  by code_simp

theorem assert_key_name_refines_NameValidator_witness:
  "sa_assert_key_name (Some ''product_name'') = SA_OK
   \<and> sa_assert_key_name (Some ''Time'') = SA_INVALID_PARAMETER_ERROR
   \<and> sa_assert_key_name (Some (replicate 101 CHR ''a'')) = SA_INVALID_PARAMETER_ERROR"
  using assert_key_name_refines_NameValidator [of "''product_name''"]
    assert_key_name_refines_NameValidator [of "''Time''"]
    assert_key_name_refines_NameValidator [of "replicate 101 CHR ''a''"]
    NameValidator_product_name not_NameValidator_Time
  by simp

section \<open>Properties of the envelope\<close>

lemma strncmp_eq_sym: "strncmp_eq a b n = strncmp_eq b a n"
  by (auto simp: strncmp_eq_def)

lemma get_child_loop_filter_other:
  assumes "\<not> strncmp_eq kc k 256"
  shows "get_child_loop k (filter (\<lambda>y. \<not> key_matches kc y) cs) = get_child_loop k cs"
proof (induction cs)
  case Nil
  then show ?case by simp
next
  case (Cons y ys)
  have "key_matches kc y \<Longrightarrow> \<not> key_matches k y"
    using assms by (auto simp: key_matches_def strncmp_eq_def split: option.splits)
  then show ?case using Cons by auto
qed

lemma get_child_add_child_stmt:
  assumes "tag d = SA_DICT" and "key c = Some kc"
  shows "sa_get_child (Some k) (add_child_stmt c d) =
           (if strncmp_eq kc k 256 then Some c else sa_get_child (Some k) d)"
proof -
  have m: "key_matches k c = strncmp_eq kc k 256"
    using assms(2) by (simp add: key_matches_def)
  show ?thesis
    using assms
    by (simp add: sa_get_child_def add_child_stmt_dict_tag add_child_stmt_dict_array m
        get_child_loop_filter_other)
qed

lemma sa_add_string_Some:
  "sa_add_string k s n (Some d) = (SA_OK, Some (add_child_stmt (SANode k (V_string (take n s))) d))"
  by (simp add: sa_add_string_def sa_init_string_node_def)

lemma sa_add_int_Some:
  "sa_add_int k i (Some d) = (SA_OK, Some (add_child_stmt (SANode k (V_int i)) d))"
  by (simp add: sa_add_int_def sa_init_int_node_def)

lemma status_checked_add_string:
  "status_checked (sa_add_string k s n (Some d)) =
     Continue (add_child_stmt (SANode k (V_string (take n s))) d)"
  by (simp add: sa_add_string_Some status_checked_def)

lemma status_checked_add_int:
  "status_checked (sa_add_int k i (Some d)) = Continue (add_child_stmt (SANode k (V_int i)) d)"
  by (simp add: sa_add_int_Some status_checked_def)

lemma drop_status_add_string:
  "drop_status (sa_add_string k s n (Some d)) d' = add_child_stmt (SANode k (V_string (take n s))) d"
  by (simp add: sa_add_string_Some drop_status_def)

lemma tag_DATE_body: "tag n = SA_DATE \<Longrightarrow> \<exists>s u. body n = V_date s u"
  by (cases "body n") (simp_all add: tag_def)

lemma tag_STRING_body: "tag n = SA_STRING \<Longrightarrow> \<exists>s. body n = V_string s"
  by (cases "body n") (simp_all add: tag_def)

lemma date_view_simps [simp]:
  "date_view (V_date s u) = Some (s, u)" "date_view (V_int i) = Some (i, 0)"
  "date_view (V_bool b) = None" "date_view (V_number x) = None" "date_view (V_string t) = None"
  "date_view (V_list cs) = None" "date_view (V_dict cs) = None"
  by (simp_all add: date_view_def)

lemma tag_readable_body:
  "tag n = SA_DATE \<or> tag n = SA_INT \<Longrightarrow> \<exists>s u. date_view (body n) = Some (s, u)"
  by (cases "body n") (simp_all add: tag_def)

lemma time_ok_readable: "time_ok p \<Longrightarrow> time_readable p"
  by (simp add: time_ok_def time_readable_def split: option.splits)

lemma well_typed_readable: "specials_well_typed props \<Longrightarrow> specials_readable props"
  by (simp add: specials_well_typed_def specials_readable_def time_ok_readable
      split: option.splits)

lemma well_typed_read_time:
  assumes "specials_well_typed props"
  shows "read_time props = supplied_time props"
proof (cases props)
  case None
  then show ?thesis by (simp add: read_time_def supplied_time_def)
next
  case (Some p)
  show ?thesis
  proof (cases "sa_get_child (Some ''$time'') p")
    case None
    then show ?thesis using Some by (simp add: read_time_def supplied_time_def)
  next
    case (Some n)
    then have "tag n = SA_DATE"
      using assms \<open>props = Some p\<close> by (simp add: specials_well_typed_def time_ok_def)
    then obtain s u where "body n = V_date s u" using tag_DATE_body by blast
    then show ?thesis
      using Some \<open>props = Some p\<close> by (simp add: read_time_def supplied_time_def)
  qed
qed

lemma loop_inner:
  "copy_properties_loop p cs msg inner = Continue (msg', inner') \<Longrightarrow>
   inner' = add_children (filter (\<lambda>c. \<not> is_special c) cs) inner"
proof (induction p cs msg inner rule: copy_properties_loop.induct)
  case (1 p msg inner)
  then show ?case by simp
next
  case (2 p cur rest msg inner)
  show ?case
  proof (cases "key_matches ''$time'' cur")
    case True
    then show ?thesis using 2
      by (auto simp: is_special_def status_checked_add_int split: option.splits prod.splits SABody.splits)
  next
    case False
    note nt = this
    show ?thesis
    proof (cases "key_matches ''$project'' cur")
      case True
      then show ?thesis using 2 nt
        by (auto simp: is_special_def status_checked_add_string split: option.splits prod.splits SABody.splits)
    next
      case False
      then show ?thesis using 2 nt by (simp add: is_special_def)
    qed
  qed
qed

lemma loop_defined:
  "time_readable p \<Longrightarrow> project_ok p \<Longrightarrow>
   \<exists>msg' inner'. copy_properties_loop p cs msg inner = Continue (msg', inner')"
proof (induction p cs msg inner rule: copy_properties_loop.induct)
  case (1 p msg inner)
  then show ?case by simp
next
  case (2 p cur rest msg inner)
  show ?case
  proof (cases "key_matches ''$time'' cur")
    case True
    show ?thesis
    proof (cases "sa_get_child (Some ''$time'') p")
      case None
      then show ?thesis using 2 True by simp
    next
      case (Some n)
      then have "tag n = SA_DATE \<or> tag n = SA_INT"
        using "2.prems"(1) by (simp add: time_readable_def)
      then obtain s u where "date_view (body n) = Some (s, u)"
        using tag_readable_body by blast
      then show ?thesis using "2.IH" "2.prems" True Some by (simp add: status_checked_add_int)
    qed
  next
    case False
    note nt = this
    show ?thesis
    proof (cases "key_matches ''$project'' cur")
      case True
      show ?thesis
      proof (cases "sa_get_child (Some ''$project'') p")
        case None
        then show ?thesis using 2 True nt by simp
      next
        case (Some n)
        then have "tag n = SA_STRING" using "2.prems"(2) by (simp add: project_ok_def)
        then obtain s where "body n = V_string s"
          using tag_STRING_body by blast
        then show ?thesis
          using "2.IH" "2.prems" True nt Some by (simp add: status_checked_add_string)
      qed
    next
      case False
      then show ?thesis using 2 nt by simp
    qed
  qed
qed



lemma loop_msg_dict:
  "tag msg = SA_DICT \<Longrightarrow> copy_properties_loop p cs msg inner = Continue (msg', inner') \<Longrightarrow>
   tag msg' = SA_DICT \<and> key msg' = key msg"
proof (induction p cs msg inner rule: copy_properties_loop.induct)
  case (1 p msg inner)
  then show ?case by simp
next
  case (2 p cur rest msg inner)
  then show ?case
    by (auto simp: status_checked_add_int status_checked_add_string add_child_stmt_dict_tag
        add_child_stmt_key split: if_splits option.splits prod.splits SABody.splits)
qed

lemma loop_msg_other:
  "tag msg = SA_DICT \<Longrightarrow> copy_properties_loop p cs msg inner = Continue (msg', inner') \<Longrightarrow>
   \<not> strncmp_eq ''time'' k 256 \<Longrightarrow> \<not> strncmp_eq ''project'' k 256 \<Longrightarrow>
   sa_get_child (Some k) msg' = sa_get_child (Some k) msg"
proof (induction p cs msg inner rule: copy_properties_loop.induct)
  case (1 p msg inner)
  then show ?case by simp
next
  case (2 p cur rest msg inner)
  then show ?case
    by (auto simp: status_checked_add_int status_checked_add_string add_child_stmt_dict_tag
        get_child_add_child_stmt split: if_splits option.splits prod.splits SABody.splits)
qed

lemma time_project_differ:
  "\<not> strncmp_eq ''time'' ''project'' 256" "\<not> strncmp_eq ''project'' ''time'' 256"
  by (simp_all add: strncmp_eq_def)

lemma loop_msg_time:
  "tag msg = SA_DICT \<Longrightarrow> copy_properties_loop p cs msg inner = Continue (msg', inner') \<Longrightarrow>
   sa_get_child (Some ''time'') msg' =
     (if list_ex (key_matches ''$time'') cs \<and> sa_get_child (Some ''$time'') p \<noteq> None
      then map_option (\<lambda>(s, u). time_node (date_millis s u)) (read_time (Some p))
      else sa_get_child (Some ''time'') msg)"
proof (induction p cs msg inner rule: copy_properties_loop.induct)
  case (1 p msg inner)
  then show ?case by simp
next
  case (2 p cur rest msg inner)
  then show ?case
    by (auto simp: status_checked_add_int status_checked_add_string add_child_stmt_dict_tag
        get_child_add_child_stmt read_time_def time_node_def time_project_differ
        strncmp_eq_def
        split: if_splits option.splits prod.splits SABody.splits)
qed

lemma time_not_project: "key_matches ''$time'' c \<Longrightarrow> \<not> key_matches ''$project'' c"
  by (auto simp: key_matches_def strncmp_eq_def split: option.splits)

lemma loop_msg_project:
  "tag msg = SA_DICT \<Longrightarrow> copy_properties_loop p cs msg inner = Continue (msg', inner') \<Longrightarrow>
   sa_get_child (Some ''project'') msg' =
     (if list_ex (key_matches ''$project'') cs \<and> sa_get_child (Some ''$project'') p \<noteq> None
      then map_option project_node (supplied_project (Some p))
      else sa_get_child (Some ''project'') msg)"
proof (induction p cs msg inner rule: copy_properties_loop.induct)
  case (1 p msg inner)
  then show ?case by simp
next
  case (2 p cur rest msg inner)
  then show ?case
    by (auto simp: status_checked_add_int status_checked_add_string add_child_stmt_dict_tag
        get_child_add_child_stmt supplied_project_def project_node_def time_project_differ
        strncmp_eq_def dest: time_not_project
        split: if_splits option.splits prod.splits SABody.splits)
qed

lemma get_child_loop_None_iff: "get_child_loop k cs = None \<longleftrightarrow> \<not> list_ex (key_matches k) cs"
  by (induction cs) auto

lemma get_child_None_iff:
  "tag p = SA_DICT \<Longrightarrow> sa_get_child (Some k) p = None \<longleftrightarrow> \<not> list_ex (key_matches k) (array p)"
  by (simp add: sa_get_child_def get_child_loop_None_iff)

lemma sa_is_track_iff: "sa_is_track t \<longleftrightarrow> take 5 t = ''track''"
proof -
  have "length ''track'' = 5" by simp
  then show ?thesis unfolding sa_is_track_def strncmp_eq_def by (simp only: take_all order_refl)
qed

lemma sa_is_track_signup_iff: "sa_is_track_signup t \<longleftrightarrow> take 12 t = ''track_signup''"
proof -
  have "length ''track_signup'' = 12" by simp
  then show ?thesis
    unfolding sa_is_track_signup_def strncmp_eq_def by (simp only: take_all order_refl)
qed

lemma signup_is_track: "sa_is_track_signup t \<Longrightarrow> sa_is_track t"
proof -
  assume "sa_is_track_signup t"
  then have "take 12 t = ''track_signup''" by (simp only: sa_is_track_signup_iff)
  then have "take 5 (take 12 t) = ''track''" by simp
  then show ?thesis by (simp add: sa_is_track_iff)
qed

lemma check_keys_loop_OK:
  "check_keys_loop cs = SA_OK \<longleftrightarrow> list_all (\<lambda>c. sa_assert_key_name (key c) = SA_OK) cs"
  by (induction cs) (auto simp: sa_assert_key_name_def)

lemma check_keys_loop_codes:
  "check_keys_loop cs = SA_OK \<or> check_keys_loop cs = SA_INVALID_PARAMETER_ERROR"
  by (induction cs) auto

lemma check_legality_codes:
  "sa_check_legality did oid t ev props = SA_OK
   \<or> sa_check_legality did oid t ev props = SA_INVALID_PARAMETER_ERROR"
  using check_keys_loop_codes by (auto simp: sa_check_legality_def split: option.splits)

lemma valid_facts:
  assumes "sa_check_legality did oid t ev props = SA_OK"
  shows "\<exists>d. did = Some d" and "sa_is_track_signup t \<Longrightarrow> \<exists>oid'. oid = Some oid'"
    and "sa_is_track t \<Longrightarrow> \<exists>e. ev = Some e"
    and "props = Some p \<Longrightarrow> list_all (\<lambda>c. sa_assert_key_name (key c) = SA_OK) (array p)"
  using assms
  by (auto simp: sa_check_legality_def bad_id_length_def check_keys_loop_OK
      split: if_splits option.splits)

lemma track_msg_head:
  assumes "sa_check_legality did oid t ev props = SA_OK" and "did = Some d"
  shows "track_msg env did oid t ev props f g l store =
     obind (case props of
              None \<Rightarrow> Continue (envelope_head env d oid t ev f g l, inner_properties_base t store)
            | Some p \<Rightarrow> copy_properties_loop p (array p) (envelope_head env d oid t ev f g l)
                         (inner_properties_base t store))
       (\<lambda>(msg, inner). Continue (add_child_stmt inner msg))"
proof -
  have o: "sa_is_track_signup t \<Longrightarrow> \<exists>oid'. oid = Some oid'"
    and e: "sa_is_track t \<Longrightarrow> \<exists>e. ev = Some e"
    using valid_facts [OF assms(1)] by blast+
  show ?thesis
  proof (cases "sa_is_track_signup t")
    case True
    then obtain oid' e' where "oid = Some oid'" "ev = Some e'"
      using o e signup_is_track by blast
    then show ?thesis
      using True assms(2)
      by (cases props)
        (simp_all add: track_msg_def envelope_head_def obind_def status_checked_add_string
          add_original_id_def add_event_def add_time_def status_checked_add_int
          drop_status_add_string event_node_def time_node_def Let_def)
  next
    case False
    note ns = this
    show ?thesis
    proof (cases "sa_is_track t")
      case True
      then obtain e' where "ev = Some e'" using e by blast
      then show ?thesis
        using True ns assms(2)
        by (simp add: track_msg_def envelope_head_def obind_def status_checked_add_string
            add_original_id_def add_event_def add_time_def status_checked_add_int
            drop_status_add_string event_node_def time_node_def Let_def split: option.splits)
    next
      case False
      then show ?thesis
        using ns assms(2)
        by (simp add: track_msg_def envelope_head_def obind_def status_checked_add_string
            add_original_id_def add_event_def add_time_def status_checked_add_int
            drop_status_add_string event_node_def time_node_def Let_def split: option.splits)
    qed
  qed
qed

lemma tag_init_dict [simp]: "tag (sa_init_dict_node k) = SA_DICT"
  by (simp add: sa_init_dict_node_def tag_def)

lemma key_init_dict [simp]: "key (sa_init_dict_node k) = k"
  by (simp add: sa_init_dict_node_def)

lemma array_init_dict [simp]: "array (sa_init_dict_node k) = []"
  by (simp add: sa_init_dict_node_def array_def)

lemma get_child_init_dict [simp]: "sa_get_child k' (sa_init_dict_node k) = None"
  by (simp add: sa_get_child_def split: option.splits)

lemma key_lib_properties: "key (lib_properties f g l) = Some ''lib''"
  by (simp add: lib_properties_def Let_def drop_status_add_string add_child_stmt_key)

lemma envelope_head_dict: "tag (envelope_head env d oid t ev f g l) = SA_DICT"
  by (simp add: envelope_head_def Let_def add_child_stmt_dict_tag split: option.splits)

lemma envelope_head_key: "key (envelope_head env d oid t ev f g l) = None"
  by (simp add: envelope_head_def Let_def add_child_stmt_key split: option.splits)

lemma envelope_head_time:
  "sa_get_child (Some ''time'') (envelope_head env d oid t ev f g l)
     = Some (time_node (now_millis env))"
  by (simp add: envelope_head_def Let_def get_child_add_child_stmt add_child_stmt_dict_tag
      key_lib_properties time_node_def event_node_def strncmp_eq_def split: option.splits)

lemma envelope_head_project:
  "sa_get_child (Some ''project'') (envelope_head env d oid t ev f g l) = None"
  by (simp add: envelope_head_def Let_def get_child_add_child_stmt add_child_stmt_dict_tag
      key_lib_properties time_node_def event_node_def strncmp_eq_def split: option.splits)

lemma envelope_head_properties:
  "sa_get_child (Some ''properties'') (envelope_head env d oid t ev f g l) = None"
  by (simp add: envelope_head_def Let_def get_child_add_child_stmt add_child_stmt_dict_tag
      key_lib_properties time_node_def event_node_def strncmp_eq_def split: option.splits)

lemma envelope_head_event:
  "sa_get_child (Some ''event'') (envelope_head env d oid t ev f g l)
     = (if sa_is_track t \<or> sa_is_track_signup t then map_option event_node ev else None)"
  by (simp add: envelope_head_def Let_def get_child_add_child_stmt add_child_stmt_dict_tag
      key_lib_properties time_node_def event_node_def strncmp_eq_def split: option.splits)

lemma tag_add_children: "tag d = SA_DICT \<Longrightarrow> tag (add_children cs d) = SA_DICT"
  by (induction cs arbitrary: d) (simp_all add: add_child_stmt_dict_tag)

lemma key_add_children: "key (add_children cs d) = key d"
  by (induction cs arbitrary: d) (simp_all add: add_child_stmt_key)

lemma remove_child_loop_None [simp]: "remove_child_loop None cs = []"
  by (induction cs) simp_all

lemma set_array_add_child_stmt:
  "set (array (add_child_stmt c d)) \<subseteq> insert c (set (array d))"
proof (cases "tag d = SA_DICT")
  case True
  show ?thesis
  proof (cases "key c")
    case None
    then show ?thesis using True by (auto simp: add_child_stmt_def sa_add_child_def)
  next
    case (Some k)
    show ?thesis unfolding add_child_stmt_dict_array [OF True Some] by auto
  qed
next
  case False
  then show ?thesis
    by (cases "tag d = SA_LIST") (auto simp: add_child_stmt_def sa_add_child_def)
qed

lemma set_array_add_children:
  "set (array (add_children cs d)) \<subseteq> set cs \<union> set (array d)"
proof (induction cs arbitrary: d)
  case Nil
  then show ?case by simp
next
  case (Cons c cs)
  show ?case using Cons [of "add_child_stmt c d"] set_array_add_child_stmt [of c d] by auto
qed

lemma inner_base_dict: "tag (inner_properties_base t store) = SA_DICT"
  by (simp add: inner_properties_base_def Let_def drop_status_add_string tag_add_children
      add_child_stmt_dict_tag)

lemma inner_base_key: "key (inner_properties_base t store) = Some ''properties''"
  by (simp add: inner_properties_base_def Let_def drop_status_add_string key_add_children
      add_child_stmt_key)

lemma inner_base_profile:
  "\<not> sa_is_track t \<Longrightarrow> inner_properties_base t store = sa_init_dict_node (Some ''properties'')"
  using signup_is_track by (auto simp: inner_properties_base_def Let_def)

lemma inner_base_children:
  "set (array (inner_properties_base t store)) \<subseteq>
     set (array store) \<union> {SANode (Some ''$lib'') (V_string SA_LIB),
                           SANode (Some ''$lib_version'') (V_string SA_LIB_VERSION)}"
proof -
  have "set (array (add_child_stmt c2 (add_child_stmt c1 (sa_init_dict_node k)))) \<subseteq> {c1, c2}"
    for c1 c2 k
    using set_array_add_child_stmt [of c2 "add_child_stmt c1 (sa_init_dict_node k)"]
      set_array_add_child_stmt [of c1 "sa_init_dict_node k"]
    by auto
  then show ?thesis
    using set_array_add_children [of "array store"]
    by (simp add: inner_properties_base_def Let_def drop_status_add_string) blast
qed

lemma assert_OK_key:
  "sa_assert_key_name ko = SA_OK \<Longrightarrow> \<exists>k. ko = Some k \<and> length k \<le> 255"
  by (auto simp: sa_assert_key_name_def split: option.splits if_splits)

lemma last_per_key_distinct:
  assumes "\<forall>c\<in>set cs. \<exists>k. key c = Some k \<and> length k \<le> 255" and "distinct (map key cs)"
  shows "last_per_key cs = cs"
  using assms
proof (induction cs)
  case Nil
  then show ?case by simp
next
  case (Cons c cs)
  have "\<not> list_ex (\<lambda>x. displaces x c) cs"
  proof
    assume "list_ex (\<lambda>x. displaces x c) cs"
    then obtain x where x: "x \<in> set cs" "displaces x c" by (auto simp: list_ex_iff)
    then obtain k where k: "key x = Some k" "length k \<le> 255" using Cons.prems(1) by auto
    then have "key_matches k c" using x(2) by (simp add: displaces_def)
    then have "key c = Some k" using k(2) by (simp add: key_matches_short)
    then show False using Cons.prems(2) x(1) k(1) by force
  qed
  then show ?case using Cons by simp
qed

lemma get_child_dict_None_iff:
  "tag d = SA_DICT \<Longrightarrow> sa_get_child (Some k) d = None \<longleftrightarrow> (\<forall>c\<in>set (array d). \<not> key_matches k c)"
  by (simp add: get_child_None_iff list_ex_iff)

lemma read_time_cases:
  assumes "tag p = SA_DICT" and "time_readable p"
  shows "(sa_get_child (Some ''$time'') p = None \<and> read_time (Some p) = None)
       \<or> (\<exists>n s u. sa_get_child (Some ''$time'') p = Some n \<and> date_view (body n) = Some (s, u)
            \<and> read_time (Some p) = Some (s, u))"
proof (cases "sa_get_child (Some ''$time'') p")
  case None
  then show ?thesis by (simp add: read_time_def)
next
  case (Some n)
  then have "tag n = SA_DATE \<or> tag n = SA_INT" using assms(2) by (simp add: time_readable_def)
  then obtain s u where "date_view (body n) = Some (s, u)" using tag_readable_body by blast
  then show ?thesis using Some by (simp add: read_time_def)
qed

lemma supplied_project_cases:
  assumes "tag p = SA_DICT" and "project_ok p"
  shows "(sa_get_child (Some ''$project'') p = None \<and> supplied_project (Some p) = None)
       \<or> (\<exists>n s. sa_get_child (Some ''$project'') p = Some n \<and> body n = V_string s
            \<and> supplied_project (Some p) = Some s)"
proof (cases "sa_get_child (Some ''$project'') p")
  case None
  then show ?thesis by (simp add: supplied_project_def)
next
  case (Some n)
  then have "tag n = SA_STRING" using assms(2) by (simp add: project_ok_def)
  then obtain s where "body n = V_string s" using tag_STRING_body by blast
  then show ?thesis using Some by (simp add: supplied_project_def)
qed

text \<open>
  The children of a dict with a given key after \<^verbatim>\<open>_sa_add_child\<close>: the new child alone
  when its key matches, the former ones otherwise.
\<close>

lemma fields_add_child_stmt:
  assumes "tag d = SA_DICT" and "key c = Some kc"
  shows "filter (key_matches k) (array (add_child_stmt c d)) =
           (if strncmp_eq kc k 256 then [c] else filter (key_matches k) (array d))"
proof -
  have m: "key_matches k c = strncmp_eq kc k 256"
    using assms(2) by (simp add: key_matches_def)
  have a: "filter (key_matches k) (filter (\<lambda>y. \<not> key_matches kc y) (array d)) = []"
    if "strncmp_eq kc k 256"
    using that
    by (auto simp: filter_empty_conv key_matches_def strncmp_eq_def split: option.splits)
  have b: "filter (key_matches k) (filter (\<lambda>y. \<not> key_matches kc y) (array d))
      = filter (key_matches k) (array d)"
    if "\<not> strncmp_eq kc k 256"
    using that
    by (auto simp: key_matches_def strncmp_eq_def split: option.splits intro!: filter_cong)
  show ?thesis
    using a b by (simp add: add_child_stmt_dict_array [OF assms] m)
qed

lemma envelope_head_time_fields:
  "filter (key_matches ''time'') (array (envelope_head env d oid t ev f g l))
     = [time_node (now_millis env)]"
  by (simp add: envelope_head_def Let_def fields_add_child_stmt add_child_stmt_dict_tag
      key_lib_properties time_node_def event_node_def strncmp_eq_def split: option.splits)

lemma loop_msg_time_fields:
  "tag msg = SA_DICT \<Longrightarrow> copy_properties_loop p cs msg inner = Continue (msg', inner') \<Longrightarrow>
   filter (key_matches ''time'') (array msg') =
     (if list_ex (key_matches ''$time'') cs \<and> sa_get_child (Some ''$time'') p \<noteq> None
      then (case read_time (Some p) of
              None \<Rightarrow> []
            | Some (s, u) \<Rightarrow> [time_node (date_millis s u)])
      else filter (key_matches ''time'') (array msg))"
proof (induction p cs msg inner rule: copy_properties_loop.induct)
  case (1 p msg inner)
  then show ?case by simp
next
  case (2 p cur rest msg inner)
  then show ?case
    by (auto simp: status_checked_add_int status_checked_add_string add_child_stmt_dict_tag
        fields_add_child_stmt read_time_def time_node_def time_project_differ
        strncmp_eq_def
        split: if_splits option.splits prod.splits SABody.splits)
qed

lemma track_msg_readable:
  assumes valid: "sa_check_legality did oid t ev props = SA_OK"
    and rd: "specials_readable props"
  shows "\<exists>msg. track_msg env did oid t ev props f g l store = Continue msg
      \<and> tag msg = SA_DICT
      \<and> sa_get_child (Some ''properties'') msg =
          Some (add_children (filter (\<lambda>c. \<not> is_special c) (supplied_children props))
                  (inner_properties_base t store))
      \<and> sa_get_child (Some ''time'') msg =
          Some (time_node (case read_time props of
                             None \<Rightarrow> now_millis env
                           | Some (s, u) \<Rightarrow> date_millis s u))
      \<and> filter (key_matches ''time'') (array msg) =
          [time_node (case read_time props of
                        None \<Rightarrow> now_millis env
                      | Some (s, u) \<Rightarrow> date_millis s u)]
      \<and> sa_get_child (Some ''project'') msg = map_option project_node (supplied_project props)
      \<and> sa_get_child (Some ''event'') msg = (if sa_is_track t then map_option event_node ev else None)"
proof -
  obtain d where d: "did = Some d" using valid_facts(1) [OF valid] by blast
  let ?head = "envelope_head env d oid t ev f g l"
  let ?base = "inner_properties_base t store"
  note head = track_msg_head [OF valid d, of env f g l store]
  have pk: "\<not> strncmp_eq ''properties'' ''time'' 256" "\<not> strncmp_eq ''properties'' ''project'' 256"
    "\<not> strncmp_eq ''properties'' ''event'' 256" "strncmp_eq ''properties'' ''properties'' 256"
    "\<not> strncmp_eq ''time'' ''event'' 256" "\<not> strncmp_eq ''project'' ''event'' 256"
    by (simp_all add: strncmp_eq_def)
  have ev: "(if sa_is_track t \<or> sa_is_track_signup t then map_option event_node ev else None)
      = (if sa_is_track t then map_option event_node ev else None)"
    using signup_is_track by auto
  show ?thesis
  proof (cases props)
    case None
    have m: "track_msg env did oid t ev props f g l store = Continue (add_child_stmt ?base ?head)"
      using head None by (simp add: obind_def)
    show ?thesis
      unfolding m
      by (simp add: None supplied_children_def read_time_def supplied_project_def
          add_child_stmt_dict_tag envelope_head_dict get_child_add_child_stmt inner_base_key pk
          envelope_head_time envelope_head_project envelope_head_event ev
          fields_add_child_stmt envelope_head_time_fields)
  next
    case (Some p)
    then have p: "tag p = SA_DICT" "time_readable p" "project_ok p"
      using rd by (simp_all add: specials_readable_def)
    obtain msg' inner' where
      loop: "copy_properties_loop p (array p) ?head ?base = Continue (msg', inner')"
      using loop_defined [OF p(2,3)] by blast
    have inner': "inner' = add_children (filter (\<lambda>c. \<not> is_special c) (array p)) ?base"
      using loop_inner [OF loop] .
    have ki: "key inner' = Some ''properties''"
      by (simp add: inner' key_add_children inner_base_key)
    have dm: "tag msg' = SA_DICT"
      using loop_msg_dict [OF envelope_head_dict loop] by simp
    have m: "track_msg env did oid t ev props f g l store = Continue (add_child_stmt inner' msg')"
      using head Some loop by (simp add: obind_def)
    have tm: "sa_get_child (Some ''time'') msg' =
        Some (time_node (case read_time props of
                           None \<Rightarrow> now_millis env | Some (s, u) \<Rightarrow> date_millis s u))"
      using read_time_cases [OF p(1,2)]
      by (auto simp: loop_msg_time [OF envelope_head_dict loop] envelope_head_time Some
          get_child_None_iff [OF p(1), symmetric])
    have tf: "filter (key_matches ''time'') (array msg') =
        [time_node (case read_time props of
                      None \<Rightarrow> now_millis env | Some (s, u) \<Rightarrow> date_millis s u)]"
      using read_time_cases [OF p(1,2)]
      by (auto simp: loop_msg_time_fields [OF envelope_head_dict loop] envelope_head_time_fields
          Some get_child_None_iff [OF p(1), symmetric])
    have pj: "sa_get_child (Some ''project'') msg' = map_option project_node (supplied_project props)"
      using supplied_project_cases [OF p(1,3)]
      by (auto simp: loop_msg_project [OF envelope_head_dict loop] envelope_head_project Some
          get_child_None_iff [OF p(1), symmetric])
    have e: "sa_get_child (Some ''event'') msg' =
        (if sa_is_track t then map_option event_node ev else None)"
      using loop_msg_other [OF envelope_head_dict loop, of "''event''"]
      by (simp add: pk envelope_head_event ev)
    show ?thesis
      unfolding m
      by (simp add: add_child_stmt_dict_tag dm get_child_add_child_stmt ki pk tm tf pj e
          fields_add_child_stmt inner' [symmetric] Some supplied_children_def)
  qed
qed

lemma track_msg_built:
  assumes valid: "sa_check_legality did oid t ev props = SA_OK"
    and wf: "specials_well_typed props"
  shows "\<exists>msg. track_msg env did oid t ev props f g l store = Continue msg
      \<and> tag msg = SA_DICT
      \<and> sa_get_child (Some ''properties'') msg =
          Some (add_children (filter (\<lambda>c. \<not> is_special c) (supplied_children props))
                  (inner_properties_base t store))
      \<and> sa_get_child (Some ''time'') msg =
          Some (time_node (case supplied_time props of
                             None \<Rightarrow> now_millis env
                           | Some (s, u) \<Rightarrow> date_millis s u))
      \<and> sa_get_child (Some ''project'') msg = map_option project_node (supplied_project props)
      \<and> sa_get_child (Some ''event'') msg = (if sa_is_track t then map_option event_node ev else None)"
  using track_msg_readable [OF valid well_typed_readable [OF wf], of env f g l store]
  unfolding well_typed_read_time [OF wf] by blast

lemma sint_mul_add_word_of_int:
  fixes s :: "64 word"
  assumes "- (2 ^ 63) \<le> sint s * 1000 + q" and "sint s * 1000 + q < 2 ^ 63"
  shows "sint (s * 1000 + word_of_int q) = sint s * 1000 + q"
proof -
  have "s * 1000 + word_of_int q = (word_of_int (sint s * 1000 + q) :: 64 word)"
    by simp
  then have "sint (s * 1000 + word_of_int q) = signed_take_bit 63 (sint s * 1000 + q)"
    by (simp only: sint_sbintrunc') simp
  then show ?thesis using assms by (simp add: signed_take_bit_int_eq_self)
qed

lemma now_millis_int:
  assumes "- (2 ^ 63) \<le> sint (tv_sec env) * 1000 + sint (tv_usec env) sdiv 1000"
    and "sint (tv_sec env) * 1000 + sint (tv_usec env) sdiv 1000 < 2 ^ 63"
  shows "sint (now_millis env) = sint (tv_sec env) * 1000 + sint (tv_usec env) sdiv 1000"
  using sint_mul_add_word_of_int [OF assms] by (simp add: now_millis_def c_sdiv_def)

lemma date_millis_int:
  assumes "- (2 ^ 63) \<le> sint s * 1000 + sint u sdiv 1000"
    and "sint s * 1000 + sint u sdiv 1000 < 2 ^ 63"
  shows "sint (date_millis s u) = sint s * 1000 + sint u sdiv 1000"
proof -
  have "sint (scast u :: 64 word) = sint u"
    by (rule sint_up_scast) (simp add: is_up)
  then show ?thesis
    using sint_mul_add_word_of_int [OF assms] by (simp add: date_millis_def c_sdiv_def)
qed

lemma check_keys_loop_bad:
  "list_ex (\<lambda>c. sa_assert_key_name (key c) \<noteq> SA_OK) cs \<Longrightarrow>
   check_keys_loop cs = SA_INVALID_PARAMETER_ERROR"
  using check_keys_loop_codes [of cs] by (auto simp: check_keys_loop_OK list_ex_iff list_all_iff)

lemma validation_fails_check:
  assumes "validation_fails did oid t ev props"
  shows "sa_check_legality did oid t ev props = SA_INVALID_PARAMETER_ERROR"
proof -
  have "sa_check_legality did oid t ev props \<noteq> SA_OK"
  proof
    assume ok: "sa_check_legality did oid t ev props = SA_OK"
    have a: "\<not> bad_id_length did"
      and b: "sa_is_track_signup t \<Longrightarrow> \<not> bad_id_length oid"
      and c: "sa_is_track t \<Longrightarrow> sa_assert_key_name ev = SA_OK"
      and d: "\<And>p. props = Some p \<Longrightarrow> check_keys_loop (array p) = SA_OK"
      using ok by (auto simp: sa_check_legality_def split: if_splits)
    have "sa_is_track_signup ''track_signup''" "sa_is_track ''track''"
      by (simp_all add: sa_is_track_signup_iff sa_is_track_iff)
    then show False
      using assms a b c d check_keys_loop_bad
      by (auto simp: validation_fails_def split: option.splits)
  qed
  then show ?thesis using check_legality_codes [of did oid t ev props] by blast
qed

lemma track_internal_invalid:
  "validation_fails did oid t ev props \<Longrightarrow>
   sa_track_internal env did oid t ev props f g l sa = Some (SA_INVALID_PARAMETER_ERROR, sa)"
  by (simp add: sa_track_internal_def validation_fails_check)

text \<open>
  Claim C2. When a validation check fails (the distinct id has no length between 1 and
  255; for a sign-up the origin id has none; for \<^verbatim>\<open>track\<close> the event name is refused by
  the name validator; a key of the supplied properties is refused), the call returns the
  invalid-parameter status and the session is as before: its super properties and its
  consumer, whatever the consumer's \<^verbatim>\<open>send\<close> would do, so nothing was sent; the envelope
  is only built after the validation. This holds of \<^verbatim>\<open>_sa_track_internal\<close> for every type
  string and of each tracking and profile call.
\<close>

theorem failed_validation_returns_invalid_parameter_without_effect:
  "(validation_fails did oid t ev props \<longrightarrow>
      sa_check_legality did oid t ev props = SA_INVALID_PARAMETER_ERROR
      \<and> sa_track_internal env did oid t ev props f g l sa = Some (SA_INVALID_PARAMETER_ERROR, sa))
   \<and> (validation_fails did None ''track'' ev props \<longrightarrow>
      sa_track env did ev props f g l sa = Some (SA_INVALID_PARAMETER_ERROR, sa))
   \<and> (validation_fails did oid ''track_signup'' (Some ''$SignUp'') props \<longrightarrow>
      sa_track_signup env did oid props f g l sa = Some (SA_INVALID_PARAMETER_ERROR, sa))
   \<and> (validation_fails did None t None props \<longrightarrow>
      sa_profile_with t env did props f g l sa = Some (SA_INVALID_PARAMETER_ERROR, sa))
   \<and> (validation_fails did None ''profile_unset'' None
        (snd (sa_add_bool k 1 (Some sa_init_properties))) \<longrightarrow>
      sa_profile_unset env did k f g l sa = Some (SA_INVALID_PARAMETER_ERROR, sa))
   \<and> (validation_fails did None ''profile_delete'' None (Some sa_init_properties) \<longrightarrow>
      sa_profile_delete env did f g l sa = Some (SA_INVALID_PARAMETER_ERROR, sa))"
  by (auto simp: sa_track_def sa_track_signup_def sa_profile_with_def sa_profile_unset_def
      sa_profile_delete_def intro: validation_fails_check track_internal_invalid)

lemma assert_time_key: "sa_assert_key_name (Some ''time'') \<noteq> SA_OK"
proof -
  have "\<not> NameValidator ''time''" by code_simp
  then show ?thesis by (simp add: assert_key_name_iff)
qed

theorem failed_validation_returns_invalid_parameter_without_effect_witness:
  "sa_track demo_env (Some []) (Some ''ViewHomePage'') None ''demo.c'' ''main'' 60 demo_sa
     = Some (SA_INVALID_PARAMETER_ERROR, demo_sa)
   \<and> this_data (consumer demo_sa) = []
   \<and> sa_profile_with ''profile_set'' demo_env (Some ''ABCDEF123456789'')
       (Some (SANode (Some ''properties'') (V_dict [SANode (Some ''time'') (V_int 5)])))
       ''demo.c'' ''main'' 60 demo_sa
     = Some (SA_INVALID_PARAMETER_ERROR, demo_sa)"
proof -
  have a: "validation_fails (Some []) None ''track'' (Some ''ViewHomePage'') None"
    by (simp add: validation_fails_def bad_id_length_def)
  have b: "validation_fails (Some ''ABCDEF123456789'') None ''profile_set'' None
      (Some (SANode (Some ''properties'') (V_dict [SANode (Some ''time'') (V_int 5)])))"
    using assert_time_key by (simp add: validation_fails_def array_def)
  show ?thesis
    using a b
      failed_validation_returns_invalid_parameter_without_effect
        [of "Some []" None "''track''" "Some ''ViewHomePage''" None demo_env "''demo.c''"
          "''main''" 60 demo_sa]
      failed_validation_returns_invalid_parameter_without_effect
        [of "Some ''ABCDEF123456789''" None "''profile_set''" None
          "Some (SANode (Some ''properties'') (V_dict [SANode (Some ''time'') (V_int 5)]))"
          demo_env "''demo.c''" "''main''" 60 demo_sa]
    by (simp add: demo_sa_def recording_consumer_def)
qed

lemma envelope_field_Continue [simp]:
  "envelope_field k (Continue msg) = sa_get_child (Some k) msg"
  by (simp add: envelope_field_def)

lemma get_child_loop_removed:
  "get_child_loop k (filter (\<lambda>y. \<not> key_matches k y) cs) = None"
  by (induction cs) auto

lemma remove_child_dict:
  assumes "tag p = SA_DICT"
  shows "tag (sa_remove_child (Some k) p) = SA_DICT"
    and "array (sa_remove_child (Some k) p) = filter (\<lambda>c. \<not> key_matches k c) (array p)"
    and "sa_get_child (Some k) (sa_remove_child (Some k) p) = None"
    and "\<not> strncmp_eq k k' 256 \<Longrightarrow>
         sa_get_child (Some k') (sa_remove_child (Some k) p) = sa_get_child (Some k') p"
  using assms
  by (simp_all add: sa_remove_child_def remove_child_loop_filter sa_get_child_def
      get_child_loop_removed get_child_loop_filter_other)

lemma removed_time_valid:
  assumes "sa_check_legality did oid t ev props = SA_OK" and "specials_readable props"
  shows "sa_check_legality did oid t ev (map_option (sa_remove_child (Some ''$time'')) props) = SA_OK"
    and "specials_readable (map_option (sa_remove_child (Some ''$time'')) props)"
    and "filter (\<lambda>c. \<not> is_special c)
           (supplied_children (map_option (sa_remove_child (Some ''$time'')) props))
         = filter (\<lambda>c. \<not> is_special c) (supplied_children props)"
proof -
  have ne: "\<not> strncmp_eq ''$time'' ''$project'' 256" by (simp add: strncmp_eq_def)
  show "sa_check_legality did oid t ev (map_option (sa_remove_child (Some ''$time'')) props) = SA_OK"
    using assms
    by (cases props)
      (auto simp: sa_check_legality_def specials_readable_def remove_child_dict
        check_keys_loop_OK list_all_iff split: if_splits)
  show "specials_readable (map_option (sa_remove_child (Some ''$time'')) props)"
    using assms(2) ne
    by (cases props)
      (auto simp: specials_readable_def remove_child_dict time_readable_def project_ok_def)
  show "filter (\<lambda>c. \<not> is_special c)
           (supplied_children (map_option (sa_remove_child (Some ''$time'')) props))
         = filter (\<lambda>c. \<not> is_special c) (supplied_children props)"
    using assms(2)
    by (cases props)
      (auto simp: supplied_children_def specials_readable_def remove_child_dict is_special_def
        intro: filter_cong)
qed

lemma libs_not_special:
  "\<not> key_matches ''$time'' (SANode (Some ''$lib'') v)"
  "\<not> key_matches ''$time'' (SANode (Some ''$lib_version'') v)"
  "\<not> key_matches ''$project'' (SANode (Some ''$lib'') v)"
  "\<not> key_matches ''$project'' (SANode (Some ''$lib_version'') v)"
  by (simp_all add: key_matches_def strncmp_eq_def)

lemma inner_no_special_key:
  assumes "tag store = SA_DICT"
    and "\<not> sa_is_track t \<or> sa_get_child (Some k) store = None"
    and "k = ''$time'' \<or> k = ''$project''"
  shows "sa_get_child (Some k)
           (add_children (filter (\<lambda>c. \<not> is_special c) cs) (inner_properties_base t store)) = None"
proof -
  let ?inner = "add_children (filter (\<lambda>c. \<not> is_special c) cs) (inner_properties_base t store)"
  have d: "tag ?inner = SA_DICT" by (simp add: tag_add_children inner_base_dict)
  have base: "\<forall>c\<in>set (array (inner_properties_base t store)). \<not> key_matches k c"
  proof (cases "sa_is_track t")
    case False
    then show ?thesis by (simp add: inner_base_profile)
  next
    case True
    then have "sa_get_child (Some k) store = None" using assms(2) by blast
    then have "\<forall>c\<in>set (array store). \<not> key_matches k c"
      using get_child_dict_None_iff [OF assms(1)] by blast
    then show ?thesis
      using inner_base_children [of t store] assms(3) libs_not_special by auto
  qed
  have "\<forall>c\<in>set (array ?inner). \<not> key_matches k c"
  proof
    fix c assume "c \<in> set (array ?inner)"
    then have "c \<in> set (filter (\<lambda>c. \<not> is_special c) cs)
        \<or> c \<in> set (array (inner_properties_base t store))"
      using set_array_add_children by blast
    then show "\<not> key_matches k c" using base assms(3) by (auto simp: is_special_def)
  qed
  then show ?thesis using get_child_dict_None_iff [OF d] by blast
qed

text \<open>
  The \<^verbatim>\<open>time\<close> field of the envelope, for a validated call whose \<^verbatim>\<open>$time\<close> entry, if any,
  is a Date or an Int node and whose \<^verbatim>\<open>$project\<close> entry, if any, is a String node. An
  envelope is built and has exactly one field keyed \<^verbatim>\<open>time\<close>: the integer \<open>now_millis\<close>
  (\<^verbatim>\<open>tv_sec * 1000 + tv_usec / 1000\<close> of the clock) when the supplied properties have no
  \<^verbatim>\<open>$time\<close> entry, and otherwise \<open>date_millis\<close> (\<^verbatim>\<open>seconds * 1000 + microseconds / 1000\<close>)
  of what the copy reads as the date of that entry, which replaces the clock's field: the
  pair of a Date node, and the integer \<open>i\<close> with microseconds 0 of an Int node, so that
  the field is \<open>i * 1000\<close>. Both are computed in 64-bit arithmetic with C's truncating
  division and equal the integer formula whenever that fits 64 bits. The supplied
  \<^verbatim>\<open>$time\<close> entry is consumed: the inner \<^verbatim>\<open>properties\<close> dict is the one the same call builds
  after the \<^verbatim>\<open>$time\<close> entry is removed from the supplied properties, and it has no
  \<^verbatim>\<open>$time\<close> key at all when the call is a profile operation or the super properties have
  none.
\<close>

lemma read_time_of_entry:
  assumes "sa_get_child (Some ''$time'') p = Some n"
  shows "body n = V_date s u \<Longrightarrow> read_time (Some p) = Some (s, u)"
    and "body n = V_int i \<Longrightarrow> read_time (Some p) = Some (i, 0)"
  using assms by (simp_all add: read_time_def)

lemma date_millis_whole_seconds: "date_millis i 0 = i * 1000"
  by (simp add: date_millis_def c_sdiv_def)

lemma envelope_time_field:
  assumes "sa_check_legality did oid t ev props = SA_OK"
    and "specials_readable props"
    and "tag store = SA_DICT"
  shows "envelope_fields ''time'' (track_msg env did oid t ev props f g l store)
           = [SANode (Some ''time'')
               (V_int (case read_time props of
                         None \<Rightarrow> now_millis env
                       | Some (s, u) \<Rightarrow> date_millis s u))]
       \<and> envelope_field ''time'' (track_msg env did oid t ev props f g l store)
           = Some (SANode (Some ''time'')
               (V_int (case read_time props of
                         None \<Rightarrow> now_millis env
                       | Some (s, u) \<Rightarrow> date_millis s u)))
       \<and> (- (2 ^ 63) \<le> sint (tv_sec env) * 1000 + sint (tv_usec env) sdiv 1000
            \<and> sint (tv_sec env) * 1000 + sint (tv_usec env) sdiv 1000 < 2 ^ 63 \<longrightarrow>
          sint (now_millis env) = sint (tv_sec env) * 1000 + sint (tv_usec env) sdiv 1000)
       \<and> (\<forall>s u. - (2 ^ 63) \<le> sint s * 1000 + sint u sdiv 1000
            \<and> sint s * 1000 + sint u sdiv 1000 < 2 ^ 63 \<longrightarrow>
          sint (date_millis s u) = sint s * 1000 + sint u sdiv 1000)
       \<and> envelope_field ''properties'' (track_msg env did oid t ev props f g l store) \<noteq> None
       \<and> envelope_field ''properties'' (track_msg env did oid t ev props f g l store)
           = envelope_field ''properties''
               (track_msg env did oid t ev (map_option (sa_remove_child (Some ''$time'')) props)
                  f g l store)
       \<and> (\<not> sa_is_track t \<or> sa_get_child (Some ''$time'') store = None \<longrightarrow>
            Option.bind (envelope_field ''properties'' (track_msg env did oid t ev props f g l store))
              (sa_get_child (Some ''$time'')) = None)"
proof -
  obtain msg where msg: "track_msg env did oid t ev props f g l store = Continue msg"
    "sa_get_child (Some ''properties'') msg =
       Some (add_children (filter (\<lambda>c. \<not> is_special c) (supplied_children props))
               (inner_properties_base t store))"
    "sa_get_child (Some ''time'') msg =
       Some (time_node (case read_time props of
                          None \<Rightarrow> now_millis env | Some (s, u) \<Rightarrow> date_millis s u))"
    "filter (key_matches ''time'') (array msg) =
       [time_node (case read_time props of
                     None \<Rightarrow> now_millis env | Some (s, u) \<Rightarrow> date_millis s u)]"
    using track_msg_readable [OF assms(1,2), of env f g l store] by blast
  obtain msg2 where msg2:
    "track_msg env did oid t ev (map_option (sa_remove_child (Some ''$time'')) props) f g l store
       = Continue msg2"
    "sa_get_child (Some ''properties'') msg2 =
       Some (add_children (filter (\<lambda>c. \<not> is_special c) (supplied_children props))
               (inner_properties_base t store))"
    using track_msg_readable [OF removed_time_valid(1,2) [OF assms(1,2)], of env f g l store]
    unfolding removed_time_valid(3) [OF assms(1,2)] by blast
  have a0: "envelope_fields ''time'' (track_msg env did oid t ev props f g l store)
           = [SANode (Some ''time'')
               (V_int (case read_time props of
                         None \<Rightarrow> now_millis env
                       | Some (s, u) \<Rightarrow> date_millis s u))]"
    by (simp add: msg envelope_fields_def time_node_def)
  have a: "envelope_field ''time'' (track_msg env did oid t ev props f g l store)
           = Some (SANode (Some ''time'')
               (V_int (case read_time props of
                         None \<Rightarrow> now_millis env
                       | Some (s, u) \<Rightarrow> date_millis s u)))"
    by (simp add: msg time_node_def)
  have b: "- (2 ^ 63) \<le> sint (tv_sec env) * 1000 + sint (tv_usec env) sdiv 1000
            \<and> sint (tv_sec env) * 1000 + sint (tv_usec env) sdiv 1000 < 2 ^ 63 \<longrightarrow>
          sint (now_millis env) = sint (tv_sec env) * 1000 + sint (tv_usec env) sdiv 1000"
    using now_millis_int by blast
  have c: "\<forall>s u. - (2 ^ 63) \<le> sint s * 1000 + sint u sdiv 1000
            \<and> sint s * 1000 + sint u sdiv 1000 < 2 ^ 63 \<longrightarrow>
          sint (date_millis s u) = sint s * 1000 + sint u sdiv 1000"
    using date_millis_int by blast
  have d: "envelope_field ''properties'' (track_msg env did oid t ev props f g l store) \<noteq> None"
    by (simp add: msg)
  have e: "envelope_field ''properties'' (track_msg env did oid t ev props f g l store)
           = envelope_field ''properties''
               (track_msg env did oid t ev (map_option (sa_remove_child (Some ''$time'')) props)
                  f g l store)"
    by (simp add: msg msg2)
  have f: "\<not> sa_is_track t \<or> sa_get_child (Some ''$time'') store = None \<longrightarrow>
            Option.bind (envelope_field ''properties'' (track_msg env did oid t ev props f g l store))
              (sa_get_child (Some ''$time'')) = None"
    using inner_no_special_key [OF assms(3), of t "''$time''"] by (auto simp: msg)
  from a0 a b c d e f show ?thesis by blast
qed

lemma demo_keys_ok:
  "sa_assert_key_name (Some ''ViewHomePage'') = SA_OK"
  "sa_assert_key_name (Some ''$SignUp'') = SA_OK"
  "sa_assert_key_name (Some ''$time'') = SA_OK"
  "sa_assert_key_name (Some ''$project'') = SA_OK"
  "sa_assert_key_name (Some ''os'') = SA_OK"
proof -
  have "NameValidator ''ViewHomePage''" "NameValidator ''$SignUp''" "NameValidator ''$time''"
    "NameValidator ''$project''" "NameValidator ''os''"
    by code_simp+
  then show "sa_assert_key_name (Some ''ViewHomePage'') = SA_OK"
    "sa_assert_key_name (Some ''$SignUp'') = SA_OK"
    "sa_assert_key_name (Some ''$time'') = SA_OK"
    "sa_assert_key_name (Some ''$project'') = SA_OK"
    "sa_assert_key_name (Some ''os'') = SA_OK"
    by (simp_all add: assert_key_name_iff)
qed

lemma demo_types:
  "sa_is_track ''track''" "\<not> sa_is_track_signup ''track''"
  "sa_is_track ''track_signup''" "sa_is_track_signup ''track_signup''"
  by (simp_all add: sa_is_track_iff sa_is_track_signup_iff)

lemma profile_types_not_track: "t \<in> set profile_types \<Longrightarrow> \<not> sa_is_track t"
  by (auto simp: profile_types_def sa_is_track_iff)

lemma demo_valid:
  "sa_check_legality (Some ''ABCDEF123456789'') None ''track'' (Some ''ViewHomePage'')
     (Some demo_properties) = SA_OK"
  "sa_check_legality (Some ''ABCDEF123456789'') None ''track'' (Some ''ViewHomePage'') None = SA_OK"
  "sa_check_legality (Some ''ABCDEF123456789'') None ''profile_set'' None
     (Some demo_properties) = SA_OK"
  using profile_types_not_track [of "''profile_set''"] signup_is_track [of "''profile_set''"]
  by (auto simp: sa_check_legality_def bad_id_length_def demo_types demo_keys_ok
      demo_properties_def array_def profile_types_def)

lemma demo_well_typed:
  "specials_well_typed (Some demo_properties)" "specials_well_typed None"
  by (simp_all add: specials_well_typed_def demo_properties_def tag_def time_ok_def
      project_ok_def sa_get_child_def array_def key_matches_def strncmp_eq_def)

lemma demo_supplied:
  "supplied_time (Some demo_properties) = Some (1500000000, 250000)"
  "supplied_project (Some demo_properties) = Some ''Foo''"
  by (simp_all add: supplied_time_def supplied_project_def demo_properties_def tag_def
      sa_get_child_def array_def key_matches_def strncmp_eq_def)

lemma demo_millis:
  "date_millis 1500000000 250000 = 1500000000250"
  "now_millis demo_env = 1484280000123"
  by (simp_all add: date_millis_def now_millis_def c_sdiv_def demo_env_def signed_divide_int_def)

lemma supplied_none: "supplied_time None = None" "supplied_project None = None"
  by (simp_all add: supplied_time_def supplied_project_def)

lemma tag_init_properties: "tag sa_init_properties = SA_DICT"
  by (simp add: sa_init_properties_def)

lemma demo_readable:
  "specials_readable (Some demo_properties)" "specials_readable None"
  using demo_well_typed by (simp_all add: well_typed_readable)

lemma demo_read_time:
  "read_time (Some demo_properties) = Some (1500000000, 250000)"
  "read_time None = None"
  using demo_well_typed demo_supplied supplied_none by (simp_all add: well_typed_read_time)

lemma time_field_examples:
  "envelope_fields ''time''
     (track_msg demo_env (Some ''ABCDEF123456789'') None ''track'' (Some ''ViewHomePage'')
        (Some demo_properties) ''demo.c'' ''main'' 60 sa_init_properties)
     = [SANode (Some ''time'') (V_int 1500000000250)]"
  "envelope_fields ''time''
     (track_msg demo_env (Some ''ABCDEF123456789'') None ''track'' (Some ''ViewHomePage'')
        None ''demo.c'' ''main'' 60 sa_init_properties)
     = [SANode (Some ''time'') (V_int 1484280000123)]"
  "Option.bind (envelope_field ''properties''
       (track_msg demo_env (Some ''ABCDEF123456789'') None ''track'' (Some ''ViewHomePage'')
          (Some demo_properties) ''demo.c'' ''main'' 60 sa_init_properties))
       (sa_get_child (Some ''$time'')) = None"
proof -
  note w1 = envelope_time_field [OF demo_valid(1) demo_readable(1) tag_init_properties,
      of demo_env "''demo.c''" "''main''" 60]
  note w2 = envelope_time_field [OF demo_valid(2) demo_readable(2) tag_init_properties,
      of demo_env "''demo.c''" "''main''" 60]
  have s: "sa_get_child (Some ''$time'') sa_init_properties = None"
    by (simp add: sa_init_properties_def)
  show "envelope_fields ''time''
     (track_msg demo_env (Some ''ABCDEF123456789'') None ''track'' (Some ''ViewHomePage'')
        (Some demo_properties) ''demo.c'' ''main'' 60 sa_init_properties)
     = [SANode (Some ''time'') (V_int 1500000000250)]"
    using w1 [THEN conjunct1] by (simp add: demo_read_time demo_millis)
  show "envelope_fields ''time''
     (track_msg demo_env (Some ''ABCDEF123456789'') None ''track'' (Some ''ViewHomePage'')
        None ''demo.c'' ''main'' 60 sa_init_properties)
     = [SANode (Some ''time'') (V_int 1484280000123)]"
    using w2 [THEN conjunct1] by (simp add: demo_read_time demo_millis)
  show "Option.bind (envelope_field ''properties''
       (track_msg demo_env (Some ''ABCDEF123456789'') None ''track'' (Some ''ViewHomePage'')
          (Some demo_properties) ''demo.c'' ''main'' 60 sa_init_properties))
       (sa_get_child (Some ''$time'')) = None"
    using w1 s by blast
qed

lemma demo_int_time_facts:
  "sa_check_legality (Some ''ABCDEF123456789'') None ''track'' (Some ''ViewHomePage'')
     (Some demo_int_time_properties) = SA_OK"
  "sa_get_child (Some ''$time'') demo_int_time_properties
     = Some (SANode (Some ''$time'') (V_int 5))"
  "specials_readable (Some demo_int_time_properties)"
  "read_time (Some demo_int_time_properties) = Some (5, 0)"
  "filter (\<lambda>c. \<not> is_special c) (supplied_children (Some demo_int_time_properties))
     = [SANode (Some ''os'') (V_string ''iOS'')]"
proof -
  show "sa_check_legality (Some ''ABCDEF123456789'') None ''track'' (Some ''ViewHomePage'')
     (Some demo_int_time_properties) = SA_OK"
    by (simp add: sa_check_legality_def bad_id_length_def demo_types demo_keys_ok
        demo_int_time_properties_def array_def)
  show g: "sa_get_child (Some ''$time'') demo_int_time_properties
     = Some (SANode (Some ''$time'') (V_int 5))"
    by (simp add: demo_int_time_properties_def sa_get_child_def tag_def array_def
        key_matches_def strncmp_eq_def)
  have p: "sa_get_child (Some ''$project'') demo_int_time_properties = None"
    by (simp add: demo_int_time_properties_def sa_get_child_def tag_def array_def
        key_matches_def strncmp_eq_def)
  show "specials_readable (Some demo_int_time_properties)"
    by (simp add: specials_readable_def time_readable_def project_ok_def g p)
      (simp add: demo_int_time_properties_def tag_def)
  show "read_time (Some demo_int_time_properties) = Some (5, 0)"
    using read_time_of_entry(2) [OF g] by simp
  show "filter (\<lambda>c. \<not> is_special c) (supplied_children (Some demo_int_time_properties))
     = [SANode (Some ''os'') (V_string ''iOS'')]"
    by (simp add: supplied_children_def demo_int_time_properties_def array_def is_special_def
        key_matches_def strncmp_eq_def)
qed

lemma demo_int_time_inner:
  "add_children [SANode (Some ''os'') (V_string ''iOS'')]
     (inner_properties_base ''track'' sa_init_properties)
   = SANode (Some ''properties'')
       (V_dict [SANode (Some ''os'') (V_string ''iOS''),
                SANode (Some ''$lib_version'') (V_string SA_LIB_VERSION),
                SANode (Some ''$lib'') (V_string SA_LIB)])"
  by (simp add: inner_properties_base_def demo_types Let_def drop_status_add_string
      sa_init_properties_def add_child_stmt_def sa_add_child_def sa_remove_child_def
      sa_init_dict_node_def set_array_def tag_def array_def key_matches_def strncmp_eq_def)

text \<open>
  Claim C3. The claim holds of the calls whose \<^verbatim>\<open>$time\<close> entry is a Date node or is
  absent, but the copy reads the \<^verbatim>\<open>date_\<close> member of the \<^verbatim>\<open>$time\<close> child without a test
  of its tag, so an entry that is no date replaces the clock's time as well. For the
  properties \<^verbatim>\<open>sa_add_string("os", "iOS", 3, p)\<close>, \<^verbatim>\<open>sa_add_int("$time", 5, p)\<close> a
  \<^verbatim>\<open>track\<close> call passes the validation, and the one \<^verbatim>\<open>time\<close> field of its envelope is
  \<open>5000\<close>, which is \<open>5 * 1000\<close>, where the clock's milliseconds are \<open>1484280000123\<close>; the
  Int entry is consumed like a date, the inner \<^verbatim>\<open>properties\<close> dict holding the \<^verbatim>\<open>os\<close>
  entry and the two library entries only.
\<close>

theorem int_time_entry_replaces_clock_time:
  "sa_check_legality (Some ''ABCDEF123456789'') None ''track'' (Some ''ViewHomePage'')
     (Some demo_int_time_properties) = SA_OK
   \<and> sa_get_child (Some ''$time'') demo_int_time_properties
       = Some (SANode (Some ''$time'') (V_int 5))
   \<and> envelope_fields ''time''
       (track_msg demo_env (Some ''ABCDEF123456789'') None ''track'' (Some ''ViewHomePage'')
          (Some demo_int_time_properties) ''demo.c'' ''main'' 60 sa_init_properties)
       = [SANode (Some ''time'') (V_int 5000)]
   \<and> now_millis demo_env = 1484280000123
   \<and> map_option array
       (envelope_field ''properties''
          (track_msg demo_env (Some ''ABCDEF123456789'') None ''track'' (Some ''ViewHomePage'')
             (Some demo_int_time_properties) ''demo.c'' ''main'' 60 sa_init_properties))
       = Some [SANode (Some ''os'') (V_string ''iOS''),
               SANode (Some ''$lib_version'') (V_string SA_LIB_VERSION),
               SANode (Some ''$lib'') (V_string SA_LIB)]"
proof -
  obtain msg where msg:
    "track_msg demo_env (Some ''ABCDEF123456789'') None ''track'' (Some ''ViewHomePage'')
        (Some demo_int_time_properties) ''demo.c'' ''main'' 60 sa_init_properties = Continue msg"
    "sa_get_child (Some ''properties'') msg =
       Some (add_children
               (filter (\<lambda>c. \<not> is_special c) (supplied_children (Some demo_int_time_properties)))
               (inner_properties_base ''track'' sa_init_properties))"
    "filter (key_matches ''time'') (array msg) =
       [time_node (case read_time (Some demo_int_time_properties) of
                     None \<Rightarrow> now_millis demo_env | Some (s, u) \<Rightarrow> date_millis s u)]"
    using track_msg_readable [OF demo_int_time_facts(1,3),
        of demo_env "''demo.c''" "''main''" 60 sa_init_properties]
    by blast
  have t: "envelope_fields ''time''
       (track_msg demo_env (Some ''ABCDEF123456789'') None ''track'' (Some ''ViewHomePage'')
          (Some demo_int_time_properties) ''demo.c'' ''main'' 60 sa_init_properties)
       = [SANode (Some ''time'') (V_int 5000)]"
    by (simp add: msg envelope_fields_def demo_int_time_facts(4) date_millis_whole_seconds
        time_node_def)
  have i: "map_option array
       (envelope_field ''properties''
          (track_msg demo_env (Some ''ABCDEF123456789'') None ''track'' (Some ''ViewHomePage'')
             (Some demo_int_time_properties) ''demo.c'' ''main'' 60 sa_init_properties))
       = Some [SANode (Some ''os'') (V_string ''iOS''),
               SANode (Some ''$lib_version'') (V_string SA_LIB_VERSION),
               SANode (Some ''$lib'') (V_string SA_LIB)]"
    unfolding msg(1) envelope_field_Continue msg(2) demo_int_time_facts(5) demo_int_time_inner
    by (simp add: array_def)
  from demo_int_time_facts(1,2) t demo_millis(2) i show ?thesis by blast
qed
lemma is_special_iff:
  "is_special c \<longleftrightarrow> key c = Some ''$time'' \<or> key c = Some ''$project''"
  by (simp add: is_special_def key_matches_short)

lemma valid_keys:
  assumes "sa_check_legality did oid t ev (Some p) = SA_OK"
  shows "\<forall>c\<in>set (array p). \<exists>k. key c = Some k \<and> length k \<le> 255"
  using valid_facts(4) [OF assms refl] assert_OK_key by (auto simp: list_all_iff)

lemma add_children_all_visible:
  assumes "tag d = SA_DICT"
    and "\<forall>c\<in>set cs. \<exists>k. key c = Some k \<and> length k \<le> 255"
    and "distinct (map key cs)"
  shows "set cs \<subseteq> set (array (add_children cs d))"
proof -
  have "list_all (\<lambda>c. key c \<noteq> None) cs" using assms(2) by (auto simp: list_all_iff)
  then have "array (add_children cs d) =
      rev (last_per_key cs) @ filter (\<lambda>y. \<not> list_ex (\<lambda>x. displaces x y) cs) (array d)"
    using add_children_dict [OF assms(1)] by blast
  then show ?thesis using last_per_key_distinct [OF assms(2,3)] by simp
qed

text \<open>
  The copy of the supplied properties, for a validated call whose properties are a dict
  with distinct keys and whose \<^verbatim>\<open>$time\<close> and \<^verbatim>\<open>$project\<close> entries, if any, are a date and
  a string: every supplied entry keyed neither \<^verbatim>\<open>$time\<close> nor \<^verbatim>\<open>$project\<close> is a child of
  the inner \<^verbatim>\<open>properties\<close> dict, whose other children are those it had before the copy
  (library entries and super properties); a supplied \<^verbatim>\<open>$project\<close> string becomes the
  string field \<^verbatim>\<open>project\<close> of the envelope root, which has no such field otherwise; and
  the inner dict has no \<^verbatim>\<open>$project\<close> key when the call is a profile operation or the super
  properties have none.
\<close>

lemma envelope_copies_properties_and_promotes_project:
  assumes "sa_check_legality did oid t ev (Some p) = SA_OK"
    and "specials_well_typed (Some p)"
    and "distinct (map key (array p))"
    and "tag store = SA_DICT"
  shows "\<exists>inner.
      envelope_field ''properties'' (track_msg env did oid t ev (Some p) f g l store) = Some inner
      \<and> tag inner = SA_DICT
      \<and> (\<forall>c\<in>set (array p).
            key c \<noteq> Some ''$time'' \<and> key c \<noteq> Some ''$project'' \<longrightarrow> c \<in> set (array inner))
      \<and> (\<forall>c\<in>set (array inner).
            c \<in> set (array (inner_properties_base t store))
            \<or> (c \<in> set (array p) \<and> key c \<noteq> Some ''$time'' \<and> key c \<noteq> Some ''$project''))
      \<and> (\<forall>n. sa_get_child (Some ''$project'') p = Some n \<longrightarrow>
            (\<exists>s. body n = V_string s
               \<and> envelope_field ''project'' (track_msg env did oid t ev (Some p) f g l store)
                   = Some (SANode (Some ''project'') (V_string s))))
      \<and> (sa_get_child (Some ''$project'') p = None \<longrightarrow>
            envelope_field ''project'' (track_msg env did oid t ev (Some p) f g l store) = None)
      \<and> (\<not> sa_is_track t \<or> sa_get_child (Some ''$project'') store = None \<longrightarrow>
            sa_get_child (Some ''$project'') inner = None)"
proof -
  let ?cs = "filter (\<lambda>c. \<not> is_special c) (array p)"
  let ?base = "inner_properties_base t store"
  let ?inner = "add_children ?cs ?base"
  have p: "tag p = SA_DICT" "project_ok p"
    using assms(2) by (simp_all add: specials_well_typed_def)
  obtain msg where msg: "track_msg env did oid t ev (Some p) f g l store = Continue msg"
    "sa_get_child (Some ''properties'') msg = Some ?inner"
    "sa_get_child (Some ''project'') msg = map_option project_node (supplied_project (Some p))"
    using track_msg_built [OF assms(1,2), of env f g l store]
    by (auto simp: supplied_children_def)
  have keys: "\<forall>c\<in>set ?cs. \<exists>k. key c = Some k \<and> length k \<le> 255"
    using valid_keys [OF assms(1)] by simp
  have a: "envelope_field ''properties'' (track_msg env did oid t ev (Some p) f g l store)
      = Some ?inner"
    by (simp add: msg envelope_field_def)
  have b: "tag ?inner = SA_DICT" by (simp add: tag_add_children inner_base_dict)
  have c: "\<forall>c\<in>set (array p).
      key c \<noteq> Some ''$time'' \<and> key c \<noteq> Some ''$project'' \<longrightarrow> c \<in> set (array ?inner)"
    using add_children_all_visible [OF inner_base_dict keys, of t store]
      distinct_map_filter [OF assms(3)]
    by (auto simp: is_special_iff)
  have d: "\<forall>c\<in>set (array ?inner).
      c \<in> set (array ?base)
      \<or> (c \<in> set (array p) \<and> key c \<noteq> Some ''$time'' \<and> key c \<noteq> Some ''$project'')"
    using set_array_add_children [of ?cs ?base] by (auto simp: is_special_iff)
  have e: "\<forall>n. sa_get_child (Some ''$project'') p = Some n \<longrightarrow>
      (\<exists>s. body n = V_string s
         \<and> envelope_field ''project'' (track_msg env did oid t ev (Some p) f g l store)
             = Some (SANode (Some ''project'') (V_string s)))"
    using supplied_project_cases [OF p]
    by (auto simp: msg envelope_field_def project_node_def)
  have f: "sa_get_child (Some ''$project'') p = None \<longrightarrow>
      envelope_field ''project'' (track_msg env did oid t ev (Some p) f g l store) = None"
    by (simp add: msg envelope_field_def supplied_project_def)
  have g: "\<not> sa_is_track t \<or> sa_get_child (Some ''$project'') store = None \<longrightarrow>
      sa_get_child (Some ''$project'') ?inner = None"
    using inner_no_special_key [OF assms(4), of t "''$project''"] by blast
  show ?thesis
    by (rule exI [of _ ?inner]) (use a b c d e f g in \<open>intro conjI\<close>)
qed


lemma demo_properties_facts:
  "distinct (map key (array demo_properties))"
  "sa_get_child (Some ''$project'') demo_properties
     = Some (SANode (Some ''$project'') (V_string ''Foo''))"
  "SANode (Some ''os'') (V_string ''iOS'') \<in> set (array demo_properties)"
  by (simp_all add: demo_properties_def array_def sa_get_child_def tag_def key_matches_def
      strncmp_eq_def)

lemma promoted_project_example:
  "envelope_field ''project''
     (track_msg demo_env (Some ''ABCDEF123456789'') None ''track'' (Some ''ViewHomePage'')
        (Some demo_properties) ''demo.c'' ''main'' 60 sa_init_properties)
     = Some (SANode (Some ''project'') (V_string ''Foo''))
   \<and> (case envelope_field ''properties''
         (track_msg demo_env (Some ''ABCDEF123456789'') None ''track'' (Some ''ViewHomePage'')
            (Some demo_properties) ''demo.c'' ''main'' 60 sa_init_properties) of
        None \<Rightarrow> False
      | Some inner \<Rightarrow>
          SANode (Some ''os'') (V_string ''iOS'') \<in> set (array inner)
          \<and> sa_get_child (Some ''$project'') inner = None)"
proof -
  have s: "sa_get_child (Some ''$project'') sa_init_properties = None"
    by (simp add: sa_init_properties_def)
  from envelope_copies_properties_and_promotes_project
    [OF demo_valid(1) demo_well_typed(1) demo_properties_facts(1) tag_init_properties,
      of demo_env "''demo.c''" "''main''" 60]
  obtain inner where inner:
    "envelope_field ''properties''
       (track_msg demo_env (Some ''ABCDEF123456789'') None ''track'' (Some ''ViewHomePage'')
          (Some demo_properties) ''demo.c'' ''main'' 60 sa_init_properties) = Some inner"
    "\<forall>c\<in>set (array demo_properties).
       key c \<noteq> Some ''$time'' \<and> key c \<noteq> Some ''$project'' \<longrightarrow> c \<in> set (array inner)"
    "\<forall>n. sa_get_child (Some ''$project'') demo_properties = Some n \<longrightarrow>
       (\<exists>s. body n = V_string s
          \<and> envelope_field ''project''
              (track_msg demo_env (Some ''ABCDEF123456789'') None ''track''
                 (Some ''ViewHomePage'') (Some demo_properties) ''demo.c'' ''main'' 60
                 sa_init_properties)
              = Some (SANode (Some ''project'') (V_string s)))"
    "\<not> sa_is_track ''track'' \<or> sa_get_child (Some ''$project'') sa_init_properties = None \<longrightarrow>
       sa_get_child (Some ''$project'') inner = None"
    by (elim exE conjE) (rule that, assumption+)
  have a: "SANode (Some ''os'') (V_string ''iOS'') \<in> set (array inner)"
    using inner(2) demo_properties_facts(3) by auto
  have b: "sa_get_child (Some ''$project'') inner = None" using inner(4) s by blast
  have c: "envelope_field ''project''
     (track_msg demo_env (Some ''ABCDEF123456789'') None ''track'' (Some ''ViewHomePage'')
        (Some demo_properties) ''demo.c'' ''main'' 60 sa_init_properties)
     = Some (SANode (Some ''project'') (V_string ''Foo''))"
    using inner(3) demo_properties_facts(2) by auto
  show ?thesis using a b c by (simp add: inner(1))
qed

lemma demo_store_eq:
  "demo_store = SANode (Some ''properties'')
     (V_dict [SANode (Some ''vip'') (V_bool 1), SANode (Some ''$project'') (V_string ''X'')])"
  by (simp add: demo_store_def sa_register_super_properties_def tag_def array_def demo_sa_def
      sa_init_properties_def add_child_stmt_def sa_add_child_def sa_remove_child_def Let_def
      sa_init_dict_node_def set_array_def key_matches_def strncmp_eq_def)

text \<open>
  The last branch of the copy, \<^verbatim>\<open>_sa_add_child(curr->value, inner_properties)\<close>: the
  supplied entry is then the only child of the inner dict with its key, whatever the
  super properties had put there.
\<close>

lemma copied_entry_displaces_store_entry:
  assumes "tag inner = SA_DICT" and "key c = Some kc"
  shows "filter (key_matches kc) (array (add_child_stmt c inner)) = [c]"
  using fields_add_child_stmt [OF assms, of kc] by (simp add: strncmp_eq_def)

text \<open>
  Claim C4. The super properties are merged into the inner \<^verbatim>\<open>properties\<close> dict before the
  copy, and the \<^verbatim>\<open>$project\<close> branch of the copy adds the supplied entry to the envelope
  root without removing an entry of that key from the inner dict, as the last branch
  does for every other key. After \<^verbatim>\<open>sa_register_super_properties\<close> with \<^verbatim>\<open>$project\<close>
  \<^verbatim>\<open>"X"\<close>, which returns \<^verbatim>\<open>SA_OK\<close>, a validated \<^verbatim>\<open>track\<close> call that supplies \<^verbatim>\<open>$project\<close>
  \<^verbatim>\<open>"Foo"\<close> builds an envelope with the root field \<^verbatim>\<open>project\<close> \<^verbatim>\<open>"Foo"\<close> whose inner
  \<^verbatim>\<open>properties\<close> dict has the \<^verbatim>\<open>$project\<close> entry \<^verbatim>\<open>"X"\<close> of the super properties.
\<close>

theorem store_project_reaches_inner_properties:
  "envelope_field ''project''
     (track_msg demo_env (Some ''ABCDEF123456789'') None ''track'' (Some ''ViewHomePage'')
        (Some demo_properties) ''demo.c'' ''main'' 60 demo_store)
     = Some (SANode (Some ''project'') (V_string ''Foo''))
   \<and> Option.bind
       (envelope_field ''properties''
          (track_msg demo_env (Some ''ABCDEF123456789'') None ''track'' (Some ''ViewHomePage'')
             (Some demo_properties) ''demo.c'' ''main'' 60 demo_store))
       (sa_get_child (Some ''$project''))
     = Some (SANode (Some ''$project'') (V_string ''X''))
   \<and> sa_check_legality (Some ''ABCDEF123456789'') None ''track'' (Some ''ViewHomePage'')
       (Some demo_properties) = SA_OK
   \<and> fst (sa_register_super_properties
       (Some (SANode (Some ''properties'')
          (V_dict [SANode (Some ''$project'') (V_string ''X''),
                   SANode (Some ''vip'') (V_bool 1)])))
       demo_sa) = SA_OK"
proof -
  obtain msg where msg:
    "track_msg demo_env (Some ''ABCDEF123456789'') None ''track'' (Some ''ViewHomePage'')
        (Some demo_properties) ''demo.c'' ''main'' 60 demo_store = Continue msg"
    "sa_get_child (Some ''properties'') msg =
       Some (add_children (filter (\<lambda>c. \<not> is_special c) (supplied_children (Some demo_properties)))
               (inner_properties_base ''track'' demo_store))"
    "sa_get_child (Some ''project'') msg
       = map_option project_node (supplied_project (Some demo_properties))"
    using track_msg_built [OF demo_valid(1) demo_well_typed(1),
        of demo_env "''demo.c''" "''main''" 60 demo_store]
    by blast
  have cs: "filter (\<lambda>c. \<not> is_special c) (supplied_children (Some demo_properties))
      = [SANode (Some ''os'') (V_string ''iOS'')]"
    by (simp add: supplied_children_def demo_properties_def array_def is_special_def
        key_matches_def strncmp_eq_def)
  have base: "sa_get_child (Some ''$project'') (inner_properties_base ''track'' demo_store)
      = Some (SANode (Some ''$project'') (V_string ''X''))"
    by (simp add: inner_properties_base_def demo_types Let_def drop_status_add_string
        demo_store_eq array_def get_child_add_child_stmt add_child_stmt_dict_tag strncmp_eq_def)
  have inner: "sa_get_child (Some ''$project'')
      (add_children [SANode (Some ''os'') (V_string ''iOS'')]
         (inner_properties_base ''track'' demo_store))
      = Some (SANode (Some ''$project'') (V_string ''X''))"
    using get_child_add_child_stmt
      [where d = "inner_properties_base ''track'' demo_store"
         and c = "SANode (Some ''os'') (V_string ''iOS'')" and kc = "''os''"
         and k = "''$project''"]
    by (simp add: inner_base_dict base strncmp_eq_def)
  have registered: "fst (sa_register_super_properties
       (Some (SANode (Some ''properties'')
          (V_dict [SANode (Some ''$project'') (V_string ''X''),
                   SANode (Some ''vip'') (V_bool 1)])))
       demo_sa) = SA_OK"
    by (simp add: sa_register_super_properties_def tag_def)
  show ?thesis
    using inner registered demo_valid(1)
    by (simp add: msg envelope_field_def cs demo_supplied project_node_def)
qed

lemma track_msg_store_independent:
  assumes "sa_check_legality did oid t ev props = SA_OK" and "\<not> sa_is_track t"
  shows "track_msg env did oid t ev props f g l store = track_msg env did oid t ev props f g l store'"
proof -
  obtain d where d: "did = Some d" using valid_facts(1) [OF assms(1)] by blast
  show ?thesis
    unfolding track_msg_head [OF assms(1) d] inner_base_profile [OF assms(2)] ..
qed

lemma no_child_keyed:
  assumes "tag d = SA_DICT" and "sa_get_child (Some k) d = None"
  shows "\<not> list_ex (\<lambda>c. key c = Some k) (array d)"
  using assms get_child_dict_None_iff [OF assms(1), of k] key_matches_self
  by (auto simp: list_ex_iff)

text \<open>
  Claim C6. An envelope has an \<^verbatim>\<open>event\<close> field only if \<^verbatim>\<open>_sa_is_track\<close> holds of the
  type, which it does of \<^verbatim>\<open>track\<close> and \<^verbatim>\<open>track_signup\<close> and of none of the six profile
  types. For a validated call of any other type, in particular of a profile operation,
  an envelope is built; it has no \<^verbatim>\<open>event\<close> field; every child of its inner
  \<^verbatim>\<open>properties\<close> dict is a child of the supplied properties; and the envelope is the
  same whatever the super properties hold.
\<close>

theorem profile_envelope_without_event_and_super_properties:
  assumes "sa_check_legality did oid t ev props = SA_OK"
    and "specials_well_typed props"
  shows "(envelope_field ''event'' (track_msg env did oid t ev props f g l store) \<noteq> None
            \<longrightarrow> sa_is_track t)
       \<and> (t \<in> set profile_types \<longrightarrow> \<not> sa_is_track t)
       \<and> sa_is_track ''track'' \<and> sa_is_track ''track_signup''
       \<and> (\<not> sa_is_track t \<longrightarrow>
            (\<exists>msg inner. track_msg env did oid t ev props f g l store = Continue msg
               \<and> sa_get_child (Some ''event'') msg = None
               \<and> \<not> list_ex (\<lambda>c. key c = Some ''event'') (array msg)
               \<and> sa_get_child (Some ''properties'') msg = Some inner
               \<and> set (array inner) \<subseteq> set (supplied_children props)
               \<and> (\<forall>store'. track_msg env did oid t ev props f g l store' = Continue msg)))"
proof -
  let ?inner = "add_children (filter (\<lambda>c. \<not> is_special c) (supplied_children props))
                  (inner_properties_base t store)"
  obtain msg where msg: "track_msg env did oid t ev props f g l store = Continue msg"
    "tag msg = SA_DICT"
    "sa_get_child (Some ''properties'') msg = Some ?inner"
    "sa_get_child (Some ''event'') msg = (if sa_is_track t then map_option event_node ev else None)"
    using track_msg_built [OF assms, of env f g l store] by blast
  have a: "envelope_field ''event'' (track_msg env did oid t ev props f g l store) \<noteq> None
      \<longrightarrow> sa_is_track t"
    by (simp add: msg envelope_field_def)
  have b: "t \<in> set profile_types \<longrightarrow> \<not> sa_is_track t"
    using profile_types_not_track by blast
  have c: "sa_is_track ''track''" "sa_is_track ''track_signup''"
    by (rule demo_types)+
  have d: "\<exists>msg inner. track_msg env did oid t ev props f g l store = Continue msg
               \<and> sa_get_child (Some ''event'') msg = None
               \<and> \<not> list_ex (\<lambda>c. key c = Some ''event'') (array msg)
               \<and> sa_get_child (Some ''properties'') msg = Some inner
               \<and> set (array inner) \<subseteq> set (supplied_children props)
               \<and> (\<forall>store'. track_msg env did oid t ev props f g l store' = Continue msg)"
    if nt: "\<not> sa_is_track t"
  proof -
    have e: "sa_get_child (Some ''event'') msg = None" using msg(4) nt by simp
    have ne: "\<not> list_ex (\<lambda>c. key c = Some ''event'') (array msg)"
      using no_child_keyed [OF msg(2) e] .
    have sub: "set (array ?inner) \<subseteq> set (supplied_children props)"
      using set_array_add_children
        [of "filter (\<lambda>c. \<not> is_special c) (supplied_children props)"
          "inner_properties_base t store"]
      by (auto simp: inner_base_profile [OF nt])
    have ind: "\<forall>store'. track_msg env did oid t ev props f g l store' = Continue msg"
      using track_msg_store_independent [OF assms(1) nt, of env f g l store] msg(1) by simp
    show ?thesis
      by (rule exI [of _ msg], rule exI [of _ ?inner])
        (use msg(1) e ne msg(3) sub ind in \<open>intro conjI\<close>)
  qed
  from a b c d show ?thesis by blast
qed

theorem profile_envelope_without_event_and_super_properties_witness:
  "envelope_field ''event''
     (track_msg demo_env (Some ''ABCDEF123456789'') None ''profile_set'' None
        (Some demo_properties) ''demo.c'' ''main'' 60 demo_store) = None
   \<and> track_msg demo_env (Some ''ABCDEF123456789'') None ''profile_set'' None
        (Some demo_properties) ''demo.c'' ''main'' 60 demo_store
     = track_msg demo_env (Some ''ABCDEF123456789'') None ''profile_set'' None
        (Some demo_properties) ''demo.c'' ''main'' 60 sa_init_properties
   \<and> array demo_store \<noteq> []"
proof -
  note w = profile_envelope_without_event_and_super_properties
    [OF demo_valid(3) demo_well_typed(1), of demo_env "''demo.c''" "''main''" 60 demo_store]
  have p: "''profile_set'' \<in> set profile_types" by (simp add: profile_types_def)
  have nt: "\<not> sa_is_track ''profile_set''" using w p by blast
  from w nt obtain msg where msg:
    "track_msg demo_env (Some ''ABCDEF123456789'') None ''profile_set'' None
        (Some demo_properties) ''demo.c'' ''main'' 60 demo_store = Continue msg"
    "sa_get_child (Some ''event'') msg = None"
    "\<forall>store'. track_msg demo_env (Some ''ABCDEF123456789'') None ''profile_set'' None
        (Some demo_properties) ''demo.c'' ''main'' 60 store' = Continue msg"
    by blast
  have s: "array demo_store \<noteq> []" by (simp add: demo_store_eq array_def)
  show ?thesis using msg s by (simp add: envelope_field_def)
qed


section \<open>Properties of the encoder\<close>

subsection \<open>Strings that are not UTF-8\<close>

lemma dump_string_invalid:
  "\<not> sa_utf8_validate s \<Longrightarrow>
   sa_dump_string (SANode k (V_string s)) sb = Some (SA_INVALID_PARAMETER_ERROR, sb)"
  by (simp add: sa_dump_string_def)

lemma dump_string_loop_replaces_invalid_byte:
  assumes "sa_utf8_validate_cz (c # rest) = 0"
  shows "dump_string_loop (c # rest) =
           map_option ((@) replacement_character) (dump_string_loop rest)"
proof -
  have "\<not> (of_char c :: nat) \<le> 0x7F"
    using assms by (auto simp: sa_utf8_validate_cz_def byte_at_def Let_def)
  then have "c \<noteq> CHR 0x22" "c \<noteq> CHR 0x5C" "c \<noteq> CHR 0x08" "c \<noteq> CHR 0x0C" "c \<noteq> CHR 0x0A"
    "c \<noteq> CHR 0x0D" "c \<noteq> CHR 0x09"
    by auto
  then show ?thesis
    using assms by (subst dump_string_loop.simps) (simp add: escape_unicode_def)
qed

lemma validate_first_sequence:
  "sa_utf8_validate_cz (c # rest) = 0 \<Longrightarrow> \<not> sa_utf8_validate (c # rest)"
  by (simp add: Let_def)

text \<open>
  Claim C8. \<^verbatim>\<open>_sa_dump_string\<close> returns the invalid-parameter status for a payload that
  is not well-formed UTF-8 and writes nothing, but \<^verbatim>\<open>_sa_dump_node\<close> calls it as a
  statement: the String case returns \<^verbatim>\<open>SA_OK\<close> with the buffer unchanged, so the caller
  of the encoder is told nothing. The loop of \<^verbatim>\<open>_sa_dump_string\<close> does replace a byte at
  which no UTF-8 sequence starts by the three bytes of U+FFFD and goes on with the next
  byte; the validation before the loop keeps every payload with such a byte away from it.
\<close>

theorem invalid_utf8_status_is_dropped_by_dump_node:
  assumes "\<not> sa_utf8_validate s"
  shows "sa_dump_string (SANode k (V_string s)) sb = Some (SA_INVALID_PARAMETER_ERROR, sb)
       \<and> sa_dump_node env (Some (SANode k (V_string s))) sb = Some (SA_OK, sb)
       \<and> (sa_utf8_validate_cz (c # rest) = 0 \<longrightarrow>
            dump_string_loop (c # rest)
              = map_option ((@) replacement_character) (dump_string_loop rest)
            \<and> \<not> sa_utf8_validate (c # rest))"
proof -
  have a: "sa_dump_string (SANode k (V_string s)) sb = Some (SA_INVALID_PARAMETER_ERROR, sb)"
    using assms by (rule dump_string_invalid)
  have b: "sa_dump_node env (Some (SANode k (V_string s))) sb = Some (SA_OK, sb)"
    by (simp add: a)
  have c: "sa_utf8_validate_cz (c # rest) = 0 \<longrightarrow>
            dump_string_loop (c # rest)
              = map_option ((@) replacement_character) (dump_string_loop rest)
            \<and> \<not> sa_utf8_validate (c # rest)"
    using dump_string_loop_replaces_invalid_byte validate_first_sequence by blast
  from a b c show ?thesis by blast
qed

lemma invalid_byte:
  "\<not> sa_utf8_validate [CHR 0xFF]" "sa_utf8_validate_cz [CHR 0xFF] = 0"
  by (simp_all add: sa_utf8_validate_cz_def byte_at_def)

theorem invalid_utf8_status_is_dropped_by_dump_node_witness:
  "sa_dump_string (SANode (Some ''k'') (V_string [CHR 0xFF])) [] = Some (SA_INVALID_PARAMETER_ERROR, [])
   \<and> sa_dump_node demo_env (Some (SANode (Some ''k'') (V_string [CHR 0xFF]))) [] = Some (SA_OK, [])
   \<and> sa_dump_node demo_env
        (Some (SANode None (V_dict [SANode (Some ''k'') (V_string [CHR 0xFF])]))) []
      = Some (SA_OK, [CHR ''{'', CHR 0x22, CHR ''k'', CHR 0x22, CHR '':'', CHR ''}''])
   \<and> dump_string_loop [CHR 0xFF] = Some replacement_character"
proof -
  note w1 = invalid_utf8_status_is_dropped_by_dump_node
      [OF invalid_byte(1), where k = "Some ''k''" and sb = "[]" and env = demo_env
        and c = "CHR 0xFF" and rest = "[]"]
  note w2 = invalid_utf8_status_is_dropped_by_dump_node
      [OF invalid_byte(1), where k = "Some ''k''"
        and sb = "[CHR ''{'', CHR 0x22, CHR ''k'', CHR 0x22, CHR '':'']" and env = demo_env
        and c = "CHR 0xFF" and rest = "[]"]
  have e: "dump_string_loop [] = Some []"
    by (subst dump_string_loop.simps) simp
  have a: "sa_dump_string (SANode (Some ''k'') (V_string [CHR 0xFF])) []
      = Some (SA_INVALID_PARAMETER_ERROR, [])"
    using w1 by blast
  have b: "sa_dump_node demo_env (Some (SANode (Some ''k'') (V_string [CHR 0xFF]))) []
      = Some (SA_OK, [])"
    using w1 by blast
  have c: "sa_dump_node demo_env
        (Some (SANode None (V_dict [SANode (Some ''k'') (V_string [CHR 0xFF])]))) []
      = Some (SA_OK, [CHR ''{'', CHR 0x22, CHR ''k'', CHR 0x22, CHR '':'', CHR ''}''])"
    using w2 [THEN conjunct2, THEN conjunct1] by simp
  have d: "dump_string_loop [CHR 0xFF] = Some replacement_character"
    using w1 invalid_byte(2) by (simp add: e)
  from a b c d show ?thesis by blast
qed

subsection \<open>Decimal fields\<close>

declare dec.simps [simp del]


lemma length_dec_pos: "0 < length (dec n)"
  by (subst dec.simps) simp















subsection \<open>Dates\<close>





















section \<open>Properties of the logging consumer\<close>














end
